theory Spec2Isabelle
  imports Main
begin

section \<open>Channel store (ChannelContext)\<close>

text \<open>
  The channel documents of the \<^verbatim>\<open>channels\<close> collection. A document is kept together with
  its identifier \<open>cid\<close>; the collection is a list, in the order in which a query returns
  its documents. Timestamps are natural numbers (milliseconds).
\<close>

record Channel =
  cid :: string
  name :: string
  description :: "string option"
  isPublic :: bool
  createdBy :: string
  createdAt :: nat
  members :: "string list"
  admins :: "string list"
  inviteCode :: "string option"

record ChannelInput =
  in_name :: string
  in_description :: "string option"
  in_isPublic :: bool

text \<open>
  \<^verbatim>\<open>Partial<ChannelInput>\<close>: every field may be absent (\<open>None\<close>). Nothing in the
  repository calls \<^verbatim>\<open>updateChannel\<close>; its argument has the declared fields.
\<close>

record ChannelUpdates =
  up_name :: "string option"
  up_description :: "string option"
  up_isPublic :: "bool option"

text \<open>
  One constructor for every \<^verbatim>\<open>throw new Error(...)\<close> of the three stores:
  \<^item> \<open>NotLoggedIn\<close>: "You must be logged in to ...";
  \<^item> \<open>ChannelNotFound\<close>: "Channel not found";
  \<^item> \<open>NotAdmin\<close>: "Only channel admins can ...";
  \<^item> \<open>NotCreator\<close>: "Only the channel creator can ...";
  \<^item> \<open>AlreadyMember\<close>: "You are already a member of this channel";
  \<^item> \<open>CreatorCannotLeave\<close>: "Channel creator cannot leave the channel";
  \<^item> \<open>InvalidCode\<close>: "Invalid invite code";
  \<^item> \<open>WrongChannelType\<close>: "This is a public channel. Use the regular join channel function.";
  \<^item> \<open>CannotRemoveCreator\<close>: "Cannot remove the channel creator";
  \<^item> \<open>CannotDemoteCreator\<close>: "Cannot demote the channel creator";
  \<^item> \<open>NotAMember\<close>: "User must be a member of the channel first";
  \<^item> \<open>TaskNotFound\<close>: "Task or shopping items not found";
  \<^item> \<open>NotPermitted\<close>: "You can only message users who are in the same channels as you"
    (and its "view messages" variant);
  \<^item> \<open>NoDocument\<close>: the rejection of \<^verbatim>\<open>updateDoc\<close> on a reference with no document;
  \<^item> \<open>InvalidData\<close>: the rejection of \<^verbatim>\<open>updateDoc\<close> on data that holds the value
    \<^verbatim>\<open>undefined\<close> ("Unsupported field value: undefined").
\<close>

datatype error =
    NotLoggedIn | ChannelNotFound | NotAdmin | NotCreator | AlreadyMember
  | CreatorCannotLeave | InvalidCode | WrongChannelType | CannotRemoveCreator
  | CannotDemoteCreator | NotAMember | TaskNotFound | NotPermitted | NoDocument
  | InvalidData

record ChannelStore =
  channels_db :: "Channel list"
  channel_error :: "error option"

subsection \<open>The document operations the store calls\<close>

definition arrayUnion :: "'a \<Rightarrow> 'a list \<Rightarrow> 'a list" where
  "arrayUnion x xs = (if x \<in> set xs then xs else xs @ [x])"

definition arrayRemove :: "'a \<Rightarrow> 'a list \<Rightarrow> 'a list" where
  "arrayRemove x xs = filter (\<lambda>y. y \<noteq> x) xs"

definition getDoc :: "string \<Rightarrow> Channel list \<Rightarrow> Channel option" where
  "getDoc i cs = find (\<lambda>c. cid c = i) cs"

fun updateDoc :: "string \<Rightarrow> (Channel \<Rightarrow> Channel) \<Rightarrow> Channel list \<Rightarrow> Channel list" where
  "updateDoc i f [] = []"
| "updateDoc i f (c # cs) = (if cid c = i then f c # cs else c # updateDoc i f cs)"

text \<open>
  Every operation has the shape \<^verbatim>\<open>try { ...; setError(null); ... } catch (err)
  { setError(err.message); throw err }\<close>: a failure leaves the documents as they are and
  records the error, a success clears the recorded error.
\<close>

definition attempt ::
  "error + ('a \<times> Channel list) \<Rightarrow> ChannelStore \<Rightarrow> (error + 'a) \<times> ChannelStore" where
  "attempt r s =
     (case r of
        Inl e \<Rightarrow> (Inl e, s\<lparr>channel_error := Some e\<rparr>)
      | Inr (v, cs) \<Rightarrow> (Inr v, s\<lparr>channels_db := cs, channel_error := None\<rparr>))"

subsection \<open>The operations\<close>

text \<open>
  \<open>currentUser\<close> is the signed-in identity (\<open>None\<close> when signed out). What the
  environment supplies is a parameter: \<open>now\<close> (the clock), \<open>newId\<close> (the identifier
  \<^verbatim>\<open>addDoc\<close> assigns) and \<open>uuid\<close> (the value of \<^verbatim>\<open>uuidv4()\<close>).
\<close>

definition createChannel ::
  "string option \<Rightarrow> ChannelInput \<Rightarrow> nat \<Rightarrow> string \<Rightarrow> string \<Rightarrow> ChannelStore
     \<Rightarrow> (error + string) \<times> ChannelStore" where
  "createChannel currentUser channelInput now newId uuid s = attempt
     (case currentUser of
        None \<Rightarrow> Inl NotLoggedIn
      | Some u \<Rightarrow>
          Inr (newId, channels_db s @
            [\<lparr>cid = newId, name = in_name channelInput,
              description = in_description channelInput,
              isPublic = in_isPublic channelInput,
              createdBy = u, createdAt = now, members = [u], admins = [u],
              inviteCode = (if in_isPublic channelInput then None else Some uuid)\<rparr>])) s"

definition apply_updates :: "ChannelUpdates \<Rightarrow> Channel \<Rightarrow> Channel" where
  "apply_updates updates c =
     c\<lparr>name := (case up_name updates of None \<Rightarrow> name c | Some n \<Rightarrow> n),
       description := (case up_description updates of None \<Rightarrow> description c | Some d \<Rightarrow> Some d),
       isPublic := (case up_isPublic updates of None \<Rightarrow> isPublic c | Some b \<Rightarrow> b)\<rparr>"

definition updateChannel ::
  "string option \<Rightarrow> string \<Rightarrow> ChannelUpdates \<Rightarrow> ChannelStore \<Rightarrow> (error + unit) \<times> ChannelStore" where
  "updateChannel currentUser i updates s = attempt
     (case currentUser of
        None \<Rightarrow> Inl NotLoggedIn
      | Some u \<Rightarrow>
          (case getDoc i (channels_db s) of
             None \<Rightarrow> Inl ChannelNotFound
           | Some channelData \<Rightarrow>
               if u \<notin> set (admins channelData) then Inl NotAdmin
               else Inr ((), updateDoc i (apply_updates updates) (channels_db s)))) s"

definition joinChannel ::
  "string option \<Rightarrow> string \<Rightarrow> ChannelStore \<Rightarrow> (error + unit) \<times> ChannelStore" where
  "joinChannel currentUser channelId s = attempt
     (case currentUser of
        None \<Rightarrow> Inl NotLoggedIn
      | Some u \<Rightarrow>
          (case getDoc channelId (channels_db s) of
             None \<Rightarrow> Inl ChannelNotFound
           | Some channelData \<Rightarrow>
               if u \<in> set (members channelData) then Inl AlreadyMember
               else Inr ((), updateDoc channelId
                 (\<lambda>c. c\<lparr>members := arrayUnion u (members c)\<rparr>) (channels_db s)))) s"

definition leaveChannel ::
  "string option \<Rightarrow> string \<Rightarrow> ChannelStore \<Rightarrow> (error + unit) \<times> ChannelStore" where
  "leaveChannel currentUser channelId s = attempt
     (case currentUser of
        None \<Rightarrow> Inl NotLoggedIn
      | Some u \<Rightarrow>
          (case getDoc channelId (channels_db s) of
             None \<Rightarrow> Inl ChannelNotFound
           | Some channelData \<Rightarrow>
               if createdBy channelData = u then Inl CreatorCannotLeave
               else Inr ((), updateDoc channelId
                 (\<lambda>c. c\<lparr>members := arrayRemove u (members c),
                         admins := arrayRemove u (admins c)\<rparr>) (channels_db s)))) s"

text \<open>
  The query \<^verbatim>\<open>where('inviteCode', '==', inviteCode)\<close> keeps the documents that store
  this code; \<^verbatim>\<open>querySnapshot.docs[0]\<close> is the first of them.
\<close>

definition joinChannelByInviteCode ::
  "string option \<Rightarrow> string \<Rightarrow> ChannelStore \<Rightarrow> (error + unit) \<times> ChannelStore" where
  "joinChannelByInviteCode currentUser code s = attempt
     (case currentUser of
        None \<Rightarrow> Inl NotLoggedIn
      | Some u \<Rightarrow>
          (case filter (\<lambda>c. inviteCode c = Some code) (channels_db s) of
             [] \<Rightarrow> Inl InvalidCode
           | channelData # _ \<Rightarrow>
               if u \<in> set (members channelData) then Inl AlreadyMember
               else if isPublic channelData then Inl WrongChannelType
               else Inr ((), updateDoc (cid channelData)
                 (\<lambda>c. c\<lparr>members := arrayUnion u (members c)\<rparr>) (channels_db s)))) s"

definition addMemberToChannel ::
  "string option \<Rightarrow> string \<Rightarrow> string \<Rightarrow> ChannelStore \<Rightarrow> (error + unit) \<times> ChannelStore" where
  "addMemberToChannel currentUser channelId userId s = attempt
     (case currentUser of
        None \<Rightarrow> Inl NotLoggedIn
      | Some u \<Rightarrow>
          (case getDoc channelId (channels_db s) of
             None \<Rightarrow> Inl ChannelNotFound
           | Some channelData \<Rightarrow>
               if u \<notin> set (admins channelData) then Inl NotAdmin
               else Inr ((), updateDoc channelId
                 (\<lambda>c. c\<lparr>members := arrayUnion userId (members c)\<rparr>) (channels_db s)))) s"

definition removeMemberFromChannel ::
  "string option \<Rightarrow> string \<Rightarrow> string \<Rightarrow> ChannelStore \<Rightarrow> (error + unit) \<times> ChannelStore" where
  "removeMemberFromChannel currentUser channelId userId s = attempt
     (case currentUser of
        None \<Rightarrow> Inl NotLoggedIn
      | Some u \<Rightarrow>
          (case getDoc channelId (channels_db s) of
             None \<Rightarrow> Inl ChannelNotFound
           | Some channelData \<Rightarrow>
               if u \<notin> set (admins channelData) then Inl NotAdmin
               else if userId = createdBy channelData then Inl CannotRemoveCreator
               else Inr ((), updateDoc channelId
                 (\<lambda>c. c\<lparr>members := arrayRemove userId (members c),
                         admins := arrayRemove userId (admins c)\<rparr>) (channels_db s)))) s"

definition promoteToAdmin ::
  "string option \<Rightarrow> string \<Rightarrow> string \<Rightarrow> ChannelStore \<Rightarrow> (error + unit) \<times> ChannelStore" where
  "promoteToAdmin currentUser channelId userId s = attempt
     (case currentUser of
        None \<Rightarrow> Inl NotLoggedIn
      | Some u \<Rightarrow>
          (case getDoc channelId (channels_db s) of
             None \<Rightarrow> Inl ChannelNotFound
           | Some channelData \<Rightarrow>
               if createdBy channelData \<noteq> u then Inl NotCreator
               else if userId \<notin> set (members channelData) then Inl NotAMember
               else Inr ((), updateDoc channelId
                 (\<lambda>c. c\<lparr>admins := arrayUnion userId (admins c)\<rparr>) (channels_db s)))) s"

definition demoteFromAdmin ::
  "string option \<Rightarrow> string \<Rightarrow> string \<Rightarrow> ChannelStore \<Rightarrow> (error + unit) \<times> ChannelStore" where
  "demoteFromAdmin currentUser channelId userId s = attempt
     (case currentUser of
        None \<Rightarrow> Inl NotLoggedIn
      | Some u \<Rightarrow>
          (case getDoc channelId (channels_db s) of
             None \<Rightarrow> Inl ChannelNotFound
           | Some channelData \<Rightarrow>
               if createdBy channelData \<noteq> u then Inl NotCreator
               else if userId = createdBy channelData then Inl CannotDemoteCreator
               else Inr ((), updateDoc channelId
                 (\<lambda>c. c\<lparr>admins := arrayRemove userId (admins c)\<rparr>) (channels_db s)))) s"

definition generateInviteCode ::
  "string option \<Rightarrow> string \<Rightarrow> string \<Rightarrow> ChannelStore \<Rightarrow> (error + string) \<times> ChannelStore" where
  "generateInviteCode currentUser channelId uuid s = attempt
     (case currentUser of
        None \<Rightarrow> Inl NotLoggedIn
      | Some u \<Rightarrow>
          (case getDoc channelId (channels_db s) of
             None \<Rightarrow> Inl ChannelNotFound
           | Some channelData \<Rightarrow>
               if u \<notin> set (admins channelData) then Inl NotAdmin
               else Inr (uuid, updateDoc channelId
                 (\<lambda>c. c\<lparr>inviteCode := Some uuid\<rparr>) (channels_db s)))) s"

text \<open>The ten mutation operations as one type, and the store each call leaves behind.\<close>

datatype channel_op =
    CreateChannel ChannelInput nat string string
  | JoinChannel string
  | JoinChannelByInviteCode string
  | LeaveChannel string
  | AddMemberToChannel string string
  | RemoveMemberFromChannel string string
  | PromoteToAdmin string string
  | DemoteFromAdmin string string
  | UpdateChannel string ChannelUpdates
  | GenerateInviteCode string string

fun apply_op :: "string option \<Rightarrow> channel_op \<Rightarrow> ChannelStore \<Rightarrow> ChannelStore" where
  "apply_op u (CreateChannel inp now newId uuid) s = snd (createChannel u inp now newId uuid s)"
| "apply_op u (JoinChannel i) s = snd (joinChannel u i s)"
| "apply_op u (JoinChannelByInviteCode code) s = snd (joinChannelByInviteCode u code s)"
| "apply_op u (LeaveChannel i) s = snd (leaveChannel u i s)"
| "apply_op u (AddMemberToChannel i x) s = snd (addMemberToChannel u i x s)"
| "apply_op u (RemoveMemberFromChannel i x) s = snd (removeMemberFromChannel u i x s)"
| "apply_op u (PromoteToAdmin i x) s = snd (promoteToAdmin u i x s)"
| "apply_op u (DemoteFromAdmin i x) s = snd (demoteFromAdmin u i x s)"
| "apply_op u (UpdateChannel i updates) s = snd (updateChannel u i updates s)"
| "apply_op u (GenerateInviteCode i uuid) s = snd (generateInviteCode u i uuid s)"

definition channel_inv :: "Channel \<Rightarrow> bool" where
  "channel_inv c = (createdBy c \<in> set (admins c) \<and> set (admins c) \<subseteq> set (members c))"


text \<open>The rule on invite codes: a channel has a code exactly when it is private.\<close>

definition code_iff_private :: "Channel \<Rightarrow> bool" where
  "code_iff_private c = (inviteCode c \<noteq> None \<longleftrightarrow> \<not> isPublic c)"

text \<open>
  The two calls that do not keep the rule, when they succeed: \<^verbatim>\<open>generateInviteCode\<close> on a
  public channel (it stores a code), and \<^verbatim>\<open>updateChannel\<close> with an \<^verbatim>\<open>isPublic\<close> that differs
  from the channel's (it leaves the code as it is). Both are calls by an admin of an
  existing channel.
\<close>

fun breaks_code_rule :: "string option \<Rightarrow> channel_op \<Rightarrow> Channel list \<Rightarrow> bool" where
  "breaks_code_rule (Some u) (GenerateInviteCode i uuid) cs =
     (case getDoc i cs of
        None \<Rightarrow> False
      | Some c \<Rightarrow> u \<in> set (admins c) \<and> isPublic c)"
| "breaks_code_rule (Some u) (UpdateChannel i updates) cs =
     (case getDoc i cs of
        None \<Rightarrow> False
      | Some c \<Rightarrow>
          u \<in> set (admins c) \<and>
          (case up_isPublic updates of None \<Rightarrow> False | Some b \<Rightarrow> b \<noteq> isPublic c))"
| "breaks_code_rule u op cs = False"

text \<open>
  A sequence of calls, each with its caller, run one after the other; and whether none of
  them is one of the two calls above on the store it meets.
\<close>

fun run_ops :: "(string option \<times> channel_op) list \<Rightarrow> ChannelStore \<Rightarrow> ChannelStore" where
  "run_ops [] s = s"
| "run_ops ((caller, op) # rest) s = run_ops rest (apply_op caller op s)"

fun no_break :: "(string option \<times> channel_op) list \<Rightarrow> ChannelStore \<Rightarrow> bool" where
  "no_break [] s = True"
| "no_break ((caller, op) # rest) s =
     (\<not> breaks_code_rule caller op (channels_db s) \<and> no_break rest (apply_op caller op s))"

section \<open>Task store (TaskContext)\<close>

datatype priority = Low | Medium | High

datatype task_status = NotStarted | InProgress | Completed

datatype task_type = Regular | Shopping

datatype privacy = PublicTask | PrivateTask

record ShoppingItem =
  item_id :: string
  item_name :: string
  item_completed :: bool
  quantity :: "nat option"

record Task =
  tid :: string
  title :: string
  t_description :: "string option"
  dueDate :: "nat option"
  dueTime :: "string option"
  priority :: priority
  completed :: bool
  channelId :: "string option"
  t_createdBy :: string
  t_createdAt :: nat
  task_type :: "task_type option"
  status :: task_status
  shoppingItems :: "ShoppingItem list option"
  privacy :: privacy

text \<open>
  The store's \<^verbatim>\<open>tasks\<close> mirrors the task documents through its snapshot listeners. The
  model keeps one list for both: an operation reads a task from it as
  \<^verbatim>\<open>tasks.find(t => t.id === id)\<close> does, and \<^verbatim>\<open>updateDoc\<close> rewrites the document in it.
\<close>

record TaskStore =
  tasks :: "Task list"
  task_error :: "error option"

text \<open>The truth value JavaScript gives an optional string: absent and empty are false.\<close>

definition truthy :: "string option \<Rightarrow> bool" where
  "truthy x = (case x of None \<Rightarrow> False | Some v \<Rightarrow> v \<noteq> [])"

text \<open>
  \<^verbatim>\<open>channelId ? doc(db, `channels/${channelId}/tasks`, id) : doc(db, 'tasks', id)\<close>: a task
  is the document of this reference when it has the identifier and lies in the
  collection the reference names (a channel's tasks, or the personal tasks).
\<close>

definition at_ref :: "string option \<Rightarrow> string \<Rightarrow> Task \<Rightarrow> bool" where
  "at_ref ch i t =
     (tid t = i \<and> (if truthy ch then channelId t = ch else \<not> truthy (channelId t)))"

definition getTaskDoc :: "string option \<Rightarrow> string \<Rightarrow> Task list \<Rightarrow> Task option" where
  "getTaskDoc ch i ts = find (at_ref ch i) ts"

text \<open>\<^verbatim>\<open>updateDoc\<close> rejects (\<open>None\<close>) when the reference has no document.\<close>

fun updateTaskDoc ::
  "string option \<Rightarrow> string \<Rightarrow> (Task \<Rightarrow> Task) \<Rightarrow> Task list \<Rightarrow> Task list option" where
  "updateTaskDoc ch i f [] = None"
| "updateTaskDoc ch i f (t # ts) =
     (if at_ref ch i t then Some (f t # ts)
      else map_option ((#) t) (updateTaskDoc ch i f ts))"

definition write_task ::
  "string option \<Rightarrow> string \<Rightarrow> (Task \<Rightarrow> Task) \<Rightarrow> Task list \<Rightarrow> error + (unit \<times> Task list)" where
  "write_task ch i f ts =
     (case updateTaskDoc ch i f ts of None \<Rightarrow> Inl NoDocument | Some ts' \<Rightarrow> Inr ((), ts'))"

definition attempt_task ::
  "error + ('a \<times> Task list) \<Rightarrow> TaskStore \<Rightarrow> (error + 'a) \<times> TaskStore" where
  "attempt_task r s =
     (case r of
        Inl e \<Rightarrow> (Inl e, s\<lparr>task_error := Some e\<rparr>)
      | Inr (v, ts) \<Rightarrow> (Inr v, s\<lparr>tasks := ts, task_error := None\<rparr>))"

subsection \<open>updateTask\<close>

text \<open>
  A property of an object handed to \<^verbatim>\<open>updateTask\<close>: the object does not have it, has it
  with the value \<^verbatim>\<open>undefined\<close>, or has it with a value.
\<close>

datatype 'a property = Absent | Undefined | Value 'a

definition value_of :: "'a property \<Rightarrow> 'a option" where
  "value_of p = (case p of Value v \<Rightarrow> Some v | _ \<Rightarrow> None)"

text \<open>
  An item of \<^verbatim>\<open>updates.shoppingItems\<close>: its \<^verbatim>\<open>id\<close> and \<^verbatim>\<open>completed\<close> may be missing
  (\<^verbatim>\<open>item.id || crypto.randomUUID()\<close>, \<^verbatim>\<open>item.completed || false\<close>); its other properties
  are copied (\<^verbatim>\<open>...item\<close>).
\<close>

record ItemInput =
  in_item_id :: "string option"
  in_item_name :: string
  in_item_completed :: "bool option"
  in_quantity :: "nat property"

text \<open>
  The \<^verbatim>\<open>updates\<close> object. \<^verbatim>\<open>updateTask\<close> declares it \<^verbatim>\<open>Partial<TaskInput>\<close>, and copies every
  property it has (\<^verbatim>\<open>{ ...updates }\<close>), also one whose value is \<^verbatim>\<open>undefined\<close>. TaskList's
  \<^verbatim>\<open>handleStatusChange\<close> passes a whole \<^verbatim>\<open>Task\<close> (\<^verbatim>\<open>task.status = newStatus; await
  updateTask(taskId, task)\<close>), so besides the fields of \<^verbatim>\<open>TaskInput\<close> the object can have
  \<^verbatim>\<open>completed\<close>, \<^verbatim>\<open>status\<close>, \<^verbatim>\<open>createdBy\<close> and \<^verbatim>\<open>createdAt\<close>. The identifier of the document
  is its key and no update changes it.
\<close>

record TaskUpdates =
  u_title :: "string property"
  u_description :: "string property"
  u_dueDate :: "nat property"
  u_dueTime :: "string property"
  u_priority :: "priority property"
  u_channelId :: "string property"
  u_type :: "task_type property"
  u_shoppingItems :: "ItemInput list property"
  u_privacy :: "privacy property"
  u_completed :: "bool property"
  u_status :: "task_status property"
  u_createdBy :: "string property"
  u_createdAt :: "nat property"

text \<open>\<open>uuids n\<close> is the value \<^verbatim>\<open>crypto.randomUUID()\<close> returns for the item at position \<open>n\<close>.\<close>

fun assign_ids :: "(nat \<Rightarrow> string) \<Rightarrow> nat \<Rightarrow> ItemInput list \<Rightarrow> ShoppingItem list" where
  "assign_ids uuids n [] = []"
| "assign_ids uuids n (item # rest) =
     \<lparr>item_id = (case in_item_id item of
                   None \<Rightarrow> uuids n
                 | Some i \<Rightarrow> if i = [] then uuids n else i),
      item_name = in_item_name item,
      item_completed = (case in_item_completed item of None \<Rightarrow> False | Some b \<Rightarrow> b),
      quantity = value_of (in_quantity item)\<rparr> # assign_ids uuids (Suc n) rest"

definition keep :: "'a property \<Rightarrow> 'a \<Rightarrow> 'a" where
  "keep new old = (case value_of new of None \<Rightarrow> old | Some v \<Rightarrow> v)"

definition keep_opt :: "'a property \<Rightarrow> 'a option \<Rightarrow> 'a option" where
  "keep_opt new old = (case value_of new of None \<Rightarrow> old | Some v \<Rightarrow> Some v)"

text \<open>The document after \<^verbatim>\<open>updateDoc(taskRef, updatedData)\<close> has written the values.\<close>

definition updatedData :: "(nat \<Rightarrow> string) \<Rightarrow> TaskUpdates \<Rightarrow> Task \<Rightarrow> Task" where
  "updatedData uuids updates t =
     t\<lparr>title := keep (u_title updates) (title t),
       t_description := keep_opt (u_description updates) (t_description t),
       dueDate := keep_opt (u_dueDate updates) (dueDate t),
       dueTime := keep_opt (u_dueTime updates) (dueTime t),
       priority := keep (u_priority updates) (priority t),
       channelId := keep_opt (u_channelId updates) (channelId t),
       task_type := keep_opt (u_type updates) (task_type t),
       shoppingItems :=
         (case value_of (u_shoppingItems updates) of
            None \<Rightarrow> shoppingItems t
          | Some items \<Rightarrow> Some (assign_ids uuids 0 items)),
       privacy := keep (u_privacy updates) (privacy t),
       completed := keep (u_completed updates) (completed t),
       status := keep (u_status updates) (status t),
       t_createdBy := keep (u_createdBy updates) (t_createdBy t),
       t_createdAt := keep (u_createdAt updates) (t_createdAt t)\<rparr>"

text \<open>
  \<^verbatim>\<open>updateDoc\<close> rejects data in which a property, or a property of an element of an array,
  has the value \<^verbatim>\<open>undefined\<close>. \<^verbatim>\<open>updateTask\<close> replaces \<^verbatim>\<open>dueDate\<close> and \<^verbatim>\<open>shoppingItems\<close> only
  when they are truthy, so an \<^verbatim>\<open>undefined\<close> one stays in the data; the items it builds
  always have an \<^verbatim>\<open>id\<close> and a \<^verbatim>\<open>completed\<close>.
\<close>

definition has_undefined :: "TaskUpdates \<Rightarrow> bool" where
  "has_undefined updates =
     (u_title updates = Undefined \<or> u_description updates = Undefined \<or>
      u_dueDate updates = Undefined \<or> u_dueTime updates = Undefined \<or>
      u_priority updates = Undefined \<or> u_channelId updates = Undefined \<or>
      u_type updates = Undefined \<or> u_shoppingItems updates = Undefined \<or>
      u_privacy updates = Undefined \<or> u_completed updates = Undefined \<or>
      u_status updates = Undefined \<or> u_createdBy updates = Undefined \<or>
      u_createdAt updates = Undefined \<or>
      (case value_of (u_shoppingItems updates) of
         None \<Rightarrow> False
       | Some items \<Rightarrow> list_ex (\<lambda>item. in_quantity item = Undefined) items))"

definition updateTask ::
  "string option \<Rightarrow> (nat \<Rightarrow> string) \<Rightarrow> string \<Rightarrow> TaskUpdates \<Rightarrow> TaskStore
     \<Rightarrow> (error + unit) \<times> TaskStore" where
  "updateTask currentUser uuids i updates s = attempt_task
     (case currentUser of
        None \<Rightarrow> Inl NotLoggedIn
      | Some u \<Rightarrow>
          if has_undefined updates then Inl InvalidData
          else write_task (value_of (u_channelId updates)) i (updatedData uuids updates)
                 (tasks s)) s"

subsection \<open>toggleTaskCompletion and toggleShoppingItem\<close>

definition toggleTaskCompletion ::
  "string option \<Rightarrow> string \<Rightarrow> bool \<Rightarrow> string option \<Rightarrow> TaskStore
     \<Rightarrow> (error + unit) \<times> TaskStore" where
  "toggleTaskCompletion currentUser i completed' ch s = attempt_task
     (case currentUser of
        None \<Rightarrow> Inl NotLoggedIn
      | Some u \<Rightarrow>
          (let task = find (\<lambda>t. tid t = i) (tasks s) in
           case (case task of
                   None \<Rightarrow> None
                 | Some t \<Rightarrow> if task_type t = Some Shopping then shoppingItems t else None) of
             Some items \<Rightarrow>
               write_task ch i
                 (\<lambda>d. d\<lparr>completed := completed',
                         status := (if completed' then Completed else NotStarted),
                         shoppingItems :=
                           Some (map (\<lambda>item. item\<lparr>item_completed := completed'\<rparr>) items)\<rparr>)
                 (tasks s)
           | None \<Rightarrow>
               write_task ch i
                 (\<lambda>d. d\<lparr>completed := completed',
                         status :=
                           (if completed' then Completed
                            else if (case task of None \<Rightarrow> False | Some t \<Rightarrow> status t = InProgress)
                            then InProgress else NotStarted)\<rparr>)
                 (tasks s))) s"

text \<open>The status \<^verbatim>\<open>toggleShoppingItem\<close> computes from the items it writes.\<close>

definition newStatus :: "ShoppingItem list \<Rightarrow> task_status" where
  "newStatus updatedItems =
     (if list_all item_completed updatedItems then Completed
      else if list_ex item_completed updatedItems then InProgress
      else NotStarted)"

definition toggleShoppingItem ::
  "string option \<Rightarrow> string \<Rightarrow> string \<Rightarrow> bool \<Rightarrow> string option \<Rightarrow> TaskStore
     \<Rightarrow> (error + unit) \<times> TaskStore" where
  "toggleShoppingItem currentUser taskId itemId completed' ch s = attempt_task
     (case currentUser of
        None \<Rightarrow> Inl NotLoggedIn
      | Some u \<Rightarrow>
          (case find (\<lambda>t. tid t = taskId) (tasks s) of
             None \<Rightarrow> Inl TaskNotFound
           | Some task \<Rightarrow>
               (case shoppingItems task of
                  None \<Rightarrow> Inl TaskNotFound
                | Some items \<Rightarrow>
                    (let updatedItems =
                           map (\<lambda>item. if item_id item = itemId
                                        then item\<lparr>item_completed := completed'\<rparr> else item) items
                     in write_task ch taskId
                          (\<lambda>d. d\<lparr>shoppingItems := Some updatedItems,
                                  status := newStatus updatedItems,
                                  completed := list_all item_completed updatedItems\<rparr>)
                          (tasks s))))) s"

text \<open>
  A sequence of calls \<open>(taskId, itemId, completed, channelId)\<close>, each made after the one
  before has succeeded; the sequence stops at the first call that fails.
\<close>

fun toggle_all ::
  "string option \<Rightarrow> (string \<times> string \<times> bool \<times> string option) list \<Rightarrow> TaskStore
     \<Rightarrow> TaskStore option" where
  "toggle_all u [] s = Some s"
| "toggle_all u ((taskId, itemId, b, ch) # calls) s =
     (case toggleShoppingItem u taskId itemId b ch s of
        (Inl e, _) \<Rightarrow> None
      | (Inr _, s') \<Rightarrow> toggle_all u calls s')"


subsection \<open>The status of a shopping task\<close>

text \<open>
  The status a shopping task has when it follows from its items as \<^verbatim>\<open>toggleShoppingItem\<close>
  computes it: completed when every item is completed (also when there is no item),
  not started when there is an item and none is completed, in progress otherwise; the
  \<open>completed\<close> flag says whether the status is completed.
\<close>

definition status_derived :: "Task \<Rightarrow> bool" where
  "status_derived t =
     (case shoppingItems t of
        None \<Rightarrow> False
      | Some items \<Rightarrow>
          (status t = Completed \<longleftrightarrow> (\<forall>item \<in> set items. item_completed item)) \<and>
          (status t = NotStarted \<longleftrightarrow>
             items \<noteq> [] \<and> (\<forall>item \<in> set items. \<not> item_completed item)) \<and>
          (status t = InProgress \<longleftrightarrow>
             (\<exists>item \<in> set items. item_completed item) \<and>
             (\<exists>item \<in> set items. \<not> item_completed item)) \<and>
          (completed t \<longleftrightarrow> status t = Completed))"

text \<open>
  The derivation in the words of the specification: completed iff every item is
  completed, not started iff no item is completed, in progress otherwise.
\<close>

definition status_as_claimed :: "Task \<Rightarrow> bool" where
  "status_as_claimed t =
     (case shoppingItems t of
        None \<Rightarrow> False
      | Some items \<Rightarrow>
          (status t = Completed \<longleftrightarrow> (\<forall>item \<in> set items. item_completed item)) \<and>
          (status t = NotStarted \<longleftrightarrow> (\<forall>item \<in> set items. \<not> item_completed item)) \<and>
          (status t = InProgress \<longleftrightarrow>
             \<not> (\<forall>item \<in> set items. item_completed item) \<and>
             \<not> (\<forall>item \<in> set items. \<not> item_completed item)) \<and>
          (completed t \<longleftrightarrow> status t = Completed))"

text \<open>The item list \<^verbatim>\<open>toggleShoppingItem\<close> writes (its \<^verbatim>\<open>updatedItems\<close>).\<close>

definition toggled :: "string \<Rightarrow> bool \<Rightarrow> ShoppingItem list \<Rightarrow> ShoppingItem list" where
  "toggled itemId b items =
     map (\<lambda>item. if item_id item = itemId then item\<lparr>item_completed := b\<rparr> else item) items"

text \<open>
  A \<^verbatim>\<open>Task\<close> object of the store passed as the \<^verbatim>\<open>updates\<close> argument of \<^verbatim>\<open>updateTask\<close>,
  as TaskList's \<^verbatim>\<open>handleStatusChange\<close> passes it. The snapshot listeners build the object
  from the document: it has the properties the document has, and always the property
  \<^verbatim>\<open>dueDate\<close>, whose value is \<^verbatim>\<open>undefined\<close> when the document has no due date
  (\<^verbatim>\<open>dueDate: doc.data().dueDate ? doc.data().dueDate.toDate() : undefined\<close>).
\<close>

definition present :: "'a option \<Rightarrow> 'a property" where
  "present x = (case x of None \<Rightarrow> Absent | Some v \<Rightarrow> Value v)"

definition task_object :: "Task \<Rightarrow> TaskUpdates" where
  "task_object t =
     \<lparr>u_title = Value (title t), u_description = present (t_description t),
      u_dueDate = (case dueDate t of None \<Rightarrow> Undefined | Some d \<Rightarrow> Value d),
      u_dueTime = present (dueTime t), u_priority = Value (priority t),
      u_channelId = present (channelId t), u_type = present (task_type t),
      u_shoppingItems =
        present (map_option (map (\<lambda>item. \<lparr>in_item_id = Some (item_id item),
                                            in_item_name = item_name item,
                                            in_item_completed = Some (item_completed item),
                                            in_quantity = present (quantity item)\<rparr>))
                   (shoppingItems t)),
      u_privacy = Value (privacy t), u_completed = Value (completed t),
      u_status = Value (status t), u_createdBy = Value (t_createdBy t),
      u_createdAt = Value (t_createdAt t)\<rparr>"

section \<open>Channel chat (ChatContext)\<close>

record Message =
  m_id :: string
  content :: string
  senderId :: string
  senderName :: string
  m_createdAt :: nat
  m_channelId :: string

text \<open>
  \<open>messages_db\<close> holds the message documents of every channel (\<open>m_channelId\<close> names the
  channel whose \<^verbatim>\<open>messages\<close> collection a document lies in); \<open>messages\<close> is the in-memory log.
\<close>

record ChatStore =
  messages_db :: "Message list"
  messages :: "Message list"
  chat_error :: "error option"

text \<open>
  \<^verbatim>\<open>query(messagesRef, orderBy('createdAt', 'asc'), limit(100))\<close>: the documents of the
  channel in ascending order of creation time, cut after the first 100.
\<close>

definition channelMessagesQuery :: "string \<Rightarrow> Message list \<Rightarrow> Message list" where
  "channelMessagesQuery ch db =
     take 100 (sort_key m_createdAt (filter (\<lambda>m. m_channelId m = ch) db))"

text \<open>
  \<^verbatim>\<open>getChannelMessages\<close> subscribes to the query; the store after the listener has run on
  the current documents (\<^verbatim>\<open>setMessages(messagesList)\<close>).
\<close>

definition getChannelMessages ::
  "string option \<Rightarrow> string \<Rightarrow> ChatStore \<Rightarrow> (error + unit) \<times> ChatStore" where
  "getChannelMessages currentUser ch s =
     (case currentUser of
        None \<Rightarrow> (Inl NotLoggedIn, s\<lparr>chat_error := Some NotLoggedIn\<rparr>)
      | Some u \<Rightarrow>
          (Inr (), s\<lparr>messages := channelMessagesQuery ch (messages_db s),
                     chat_error := None\<rparr>))"

section \<open>Direct messages (DirectMessageContext)\<close>

record DirectMessage =
  dm_id :: string
  dm_content :: string
  dm_senderId :: string
  receiverId :: string
  dm_senderName :: string
  dm_createdAt :: nat

record DirectMessageStore =
  directMessages_db :: "DirectMessage list"
  dm_messages :: "DirectMessage list"
  dm_error :: "error option"

text \<open>
  The channel store's \<^verbatim>\<open>joinedChannels\<close> of an identity: the snapshot of the query
  \<^verbatim>\<open>where('members', 'array-contains', currentUser.uid)\<close>.
\<close>

definition joinedChannels :: "string \<Rightarrow> Channel list \<Rightarrow> Channel list" where
  "joinedChannels u cs = filter (\<lambda>c. u \<in> set (members c)) cs"

definition canMessageUser :: "string option \<Rightarrow> string \<Rightarrow> Channel list \<Rightarrow> bool" where
  "canMessageUser currentUser userId joined =
     (case currentUser of
        None \<Rightarrow> False
      | Some u \<Rightarrow>
          (let sharedChannels =
                 filter (\<lambda>channel. userId \<in> set (members channel) \<and> u \<in> set (members channel))
                   joined
           in length sharedChannels > 0))"

text \<open>
  \<open>displayName\<close> is \<^verbatim>\<open>currentUser.displayName\<close>; \<open>now\<close> and \<open>newId\<close> are the clock and the
  identifier \<^verbatim>\<open>addDoc\<close> assigns.
\<close>

definition sendMessage ::
  "string option \<Rightarrow> string option \<Rightarrow> Channel list \<Rightarrow> string \<Rightarrow> string \<Rightarrow> nat \<Rightarrow> string
     \<Rightarrow> DirectMessageStore \<Rightarrow> (error + unit) \<times> DirectMessageStore" where
  "sendMessage currentUser displayName joined receiver body now newId s =
     (case currentUser of
        None \<Rightarrow> (Inl NotLoggedIn, s\<lparr>dm_error := Some NotLoggedIn\<rparr>)
      | Some u \<Rightarrow>
          if \<not> canMessageUser currentUser receiver joined
          then (Inl NotPermitted, s\<lparr>dm_error := Some NotPermitted\<rparr>)
          else (Inr (),
                s\<lparr>directMessages_db := directMessages_db s @
                     [\<lparr>dm_id = newId, dm_content = body, dm_senderId = u,
                       receiverId = receiver,
                       dm_senderName = (case displayName of
                                          None \<Rightarrow> ''Anonymous''
                                        | Some n \<Rightarrow> if n = [] then ''Anonymous'' else n),
                       dm_createdAt = now\<rparr>],
                  dm_error := None\<rparr>))"

definition getMessagesWithUser ::
  "string option \<Rightarrow> Channel list \<Rightarrow> string \<Rightarrow> DirectMessageStore
     \<Rightarrow> (error + DirectMessage list) \<times> DirectMessageStore" where
  "getMessagesWithUser currentUser joined userId s =
     (case currentUser of
        None \<Rightarrow> (Inl NotLoggedIn, s\<lparr>dm_error := Some NotLoggedIn\<rparr>)
      | Some u \<Rightarrow>
          if \<not> canMessageUser currentUser userId joined
          then (Inl NotPermitted, s\<lparr>dm_error := Some NotPermitted\<rparr>)
          else
            (let messagesList =
                   sort_key dm_createdAt
                     (filter (\<lambda>m. (dm_senderId m = u \<or> receiverId m = u) \<and>
                                   (dm_senderId m = userId \<or> receiverId m = userId))
                        (directMessages_db s))
             in (Inr messagesList, s\<lparr>dm_messages := messagesList, dm_error := None\<rparr>)))"

section \<open>Concrete stores\<close>

definition ex_channel :: Channel where
  "ex_channel =
     \<lparr>cid = ''c1'', name = ''team'', description = None, isPublic = False,
      createdBy = ''alice'', createdAt = 0, members = [''alice'', ''bob''],
      admins = [''alice'', ''bob''], inviteCode = Some ''K1''\<rparr>"

definition ex_store :: ChannelStore where
  "ex_store = \<lparr>channels_db = [ex_channel], channel_error = None\<rparr>"

definition ex_public_channel :: Channel where
  "ex_public_channel =
     \<lparr>cid = ''c2'', name = ''lobby'', description = None, isPublic = True,
      createdBy = ''alice'', createdAt = 1, members = [''alice''],
      admins = [''alice''], inviteCode = Some ''P1''\<rparr>"

definition ex_store2 :: ChannelStore where
  "ex_store2 = \<lparr>channels_db = [ex_channel, ex_public_channel], channel_error = None\<rparr>"

definition ex_public_input :: ChannelInput where
  "ex_public_input = \<lparr>in_name = ''lobby'', in_description = None, in_isPublic = True\<rparr>"

definition empty_store :: ChannelStore where
  "empty_store = \<lparr>channels_db = [], channel_error = None\<rparr>"

definition ex_created :: ChannelStore where
  "ex_created = snd (createChannel (Some ''alice'') ex_public_input 1 ''c2'' ''K0'' empty_store)"

definition ex_regenerated :: ChannelStore where
  "ex_regenerated = snd (generateInviteCode (Some ''alice'') ''c2'' ''P1'' ex_created)"

definition ex_milk :: ShoppingItem where
  "ex_milk = \<lparr>item_id = ''i1'', item_name = ''milk'', item_completed = False, quantity = Some 2\<rparr>"

definition ex_eggs :: ShoppingItem where
  "ex_eggs = \<lparr>item_id = ''i2'', item_name = ''eggs'', item_completed = False, quantity = Some 12\<rparr>"

definition ex_shopping :: Task where
  "ex_shopping =
     \<lparr>tid = ''t1'', title = ''groceries'', t_description = None, dueDate = None,
      dueTime = None, priority = Medium, completed = False, channelId = None,
      t_createdBy = ''alice'', t_createdAt = 5, task_type = Some Shopping,
      status = NotStarted, shoppingItems = Some [ex_milk, ex_eggs], privacy = PrivateTask\<rparr>"

definition ex_tasks :: TaskStore where
  "ex_tasks = \<lparr>tasks = [ex_shopping], task_error = None\<rparr>"

definition ex_shopping_done :: Task where
  "ex_shopping_done =
     ex_shopping\<lparr>shoppingItems := Some [ex_milk\<lparr>item_completed := True\<rparr>,
                                         ex_eggs\<lparr>item_completed := True\<rparr>],
                  status := Completed, completed := True\<rparr>"

definition ex_empty_list :: Task where
  "ex_empty_list =
     \<lparr>tid = ''t0'', title = ''nothing to buy'', t_description = None, dueDate = None,
      dueTime = None, priority = Low, completed = False, channelId = None,
      t_createdBy = ''alice'', t_createdAt = 4, task_type = Some Shopping,
      status = NotStarted, shoppingItems = Some [], privacy = PrivateTask\<rparr>"

definition ex_regular :: Task where
  "ex_regular =
     \<lparr>tid = ''t2'', title = ''write report'', t_description = None, dueDate = Some 100,
      dueTime = None, priority = High, completed = False, channelId = None,
      t_createdBy = ''alice'', t_createdAt = 6, task_type = Some Regular,
      status = NotStarted, shoppingItems = None, privacy = PrivateTask\<rparr>"

definition ex_items_bought :: TaskUpdates where
  "ex_items_bought =
     \<lparr>u_title = Absent, u_description = Absent, u_dueDate = Absent, u_dueTime = Absent,
      u_priority = Absent, u_channelId = Absent, u_type = Absent,
      u_shoppingItems =
        Value [\<lparr>in_item_id = Some ''i1'', in_item_name = ''milk'',
                 in_item_completed = Some True, in_quantity = Value 2\<rparr>,
               \<lparr>in_item_id = Some ''i2'', in_item_name = ''eggs'',
                 in_item_completed = Some True, in_quantity = Value 12\<rparr>],
      u_privacy = Absent, u_completed = Absent, u_status = Absent, u_createdBy = Absent,
      u_createdAt = Absent\<rparr>"

definition ex_message :: "nat \<Rightarrow> Message" where
  "ex_message n =
     \<lparr>m_id = replicate n CHR ''m'', content = ''hello'', senderId = ''alice'',
      senderName = ''Alice'', m_createdAt = n, m_channelId = ''c1''\<rparr>"

definition ex_chat :: ChatStore where
  "ex_chat = \<lparr>messages_db = map ex_message [1..<102], messages = [], chat_error = None\<rparr>"

definition ex_dm_store :: DirectMessageStore where
  "ex_dm_store = \<lparr>directMessages_db = [], dm_messages = [], dm_error = None\<rparr>"

definition ex_private_input :: ChannelInput where
  "ex_private_input = \<lparr>in_name = ''team'', in_description = None, in_isPublic = False\<rparr>"

definition ex_ops :: "(string option \<times> channel_op) list" where
  "ex_ops =
     [(Some ''alice'', CreateChannel ex_private_input 0 ''c1'' ''K1''),
      (Some ''bob'', JoinChannelByInviteCode ''K1''),
      (Some ''alice'', PromoteToAdmin ''c1'' ''bob''),
      (Some ''bob'', GenerateInviteCode ''c1'' ''K2'')]"

definition ex_make_public :: ChannelUpdates where
  "ex_make_public = \<lparr>up_name = None, up_description = None, up_isPublic = Some True\<rparr>"

section \<open>The channel store: membership and roles\<close>

lemma set_arrayUnion: "set (arrayUnion x xs) = insert x (set xs)"
  by (auto simp: arrayUnion_def)

lemma set_arrayRemove: "set (arrayRemove x xs) = set xs - {x}"
  by (auto simp: arrayRemove_def)

lemma length_updateDoc: "length (updateDoc i f cs) = length cs"
  by (induction cs) auto

lemma updateDoc_nth:
  "k < length cs \<Longrightarrow>
     updateDoc i f cs ! k = cs ! k \<or>
     (getDoc i cs = Some (cs ! k) \<and> updateDoc i f cs ! k = f (cs ! k))"
proof (induction cs arbitrary: k)
  case Nil
  then show ?case by simp
next
  case (Cons c cs)
  show ?case
  proof (cases k)
    case 0
    then show ?thesis by (simp add: getDoc_def)
  next
    case (Suc j)
    with Cons.prems have "j < length cs" by simp
    from Cons.IH [OF this] Suc show ?thesis by (auto simp: getDoc_def)
  qed
qed

lemma updateDoc_keeps:
  assumes "k < length cs" and "P (cs ! k)"
    and "\<And>c. getDoc i cs = Some c \<Longrightarrow> P c \<Longrightarrow> P (f c)"
  shows "P (updateDoc i f cs ! k)"
  using updateDoc_nth [OF assms(1), of i f] assms(2,3) by auto

lemma attempt_db:
  "channels_db (snd (attempt r s)) = (case r of Inl e \<Rightarrow> channels_db s | Inr (v, cs) \<Rightarrow> cs)"
  by (simp add: attempt_def split: sum.splits prod.splits)

lemma inv_create:
  "k < length (channels_db (snd (createChannel u inp now newId uuid s))) \<Longrightarrow>
   (k < length (channels_db s) \<longrightarrow> channel_inv (channels_db s ! k)) \<Longrightarrow>
   channel_inv (channels_db (snd (createChannel u inp now newId uuid s)) ! k)"
  by (cases u) (auto simp: createChannel_def attempt_db nth_append channel_inv_def less_Suc_eq)

lemma inv_join:
  "k < length (channels_db s) \<Longrightarrow> channel_inv (channels_db s ! k) \<Longrightarrow>
   channel_inv (channels_db (snd (joinChannel u i s)) ! k)"
  unfolding joinChannel_def attempt_db
  by (auto split: option.splits intro!: updateDoc_keeps [where P = channel_inv])
     (auto simp: channel_inv_def set_arrayUnion)

lemma inv_joinCode:
  "k < length (channels_db s) \<Longrightarrow> channel_inv (channels_db s ! k) \<Longrightarrow>
   channel_inv (channels_db (snd (joinChannelByInviteCode u code s)) ! k)"
  unfolding joinChannelByInviteCode_def attempt_db
  by (auto split: option.splits list.splits intro!: updateDoc_keeps [where P = channel_inv])
     (auto simp: channel_inv_def set_arrayUnion)

lemma inv_leave:
  "k < length (channels_db s) \<Longrightarrow> channel_inv (channels_db s ! k) \<Longrightarrow>
   channel_inv (channels_db (snd (leaveChannel u i s)) ! k)"
  unfolding leaveChannel_def attempt_db
  by (auto split: option.splits intro!: updateDoc_keeps [where P = channel_inv])
     (auto simp: channel_inv_def set_arrayRemove)

lemma inv_addMember:
  "k < length (channels_db s) \<Longrightarrow> channel_inv (channels_db s ! k) \<Longrightarrow>
   channel_inv (channels_db (snd (addMemberToChannel u i x s)) ! k)"
  unfolding addMemberToChannel_def attempt_db
  by (auto split: option.splits intro!: updateDoc_keeps [where P = channel_inv])
     (auto simp: channel_inv_def set_arrayUnion)

lemma inv_removeMember:
  "k < length (channels_db s) \<Longrightarrow> channel_inv (channels_db s ! k) \<Longrightarrow>
   channel_inv (channels_db (snd (removeMemberFromChannel u i x s)) ! k)"
  unfolding removeMemberFromChannel_def attempt_db
  by (auto split: option.splits intro!: updateDoc_keeps [where P = channel_inv])
     (auto simp: channel_inv_def set_arrayRemove)

lemma inv_promote:
  "k < length (channels_db s) \<Longrightarrow> channel_inv (channels_db s ! k) \<Longrightarrow>
   channel_inv (channels_db (snd (promoteToAdmin u i x s)) ! k)"
  unfolding promoteToAdmin_def attempt_db
  by (auto split: option.splits intro!: updateDoc_keeps [where P = channel_inv])
     (auto simp: channel_inv_def set_arrayUnion)

lemma inv_demote:
  "k < length (channels_db s) \<Longrightarrow> channel_inv (channels_db s ! k) \<Longrightarrow>
   channel_inv (channels_db (snd (demoteFromAdmin u i x s)) ! k)"
  unfolding demoteFromAdmin_def attempt_db
  by (auto split: option.splits intro!: updateDoc_keeps [where P = channel_inv])
     (auto simp: channel_inv_def set_arrayRemove)

lemma inv_update:
  "k < length (channels_db s) \<Longrightarrow> channel_inv (channels_db s ! k) \<Longrightarrow>
   channel_inv (channels_db (snd (updateChannel u i updates s)) ! k)"
  unfolding updateChannel_def attempt_db
  by (auto split: option.splits intro!: updateDoc_keeps [where P = channel_inv])
     (auto simp: channel_inv_def apply_updates_def)

lemma inv_generate:
  "k < length (channels_db s) \<Longrightarrow> channel_inv (channels_db s ! k) \<Longrightarrow>
   channel_inv (channels_db (snd (generateInviteCode u i uuid s)) ! k)"
  unfolding generateInviteCode_def attempt_db
  by (auto split: option.splits intro!: updateDoc_keeps [where P = channel_inv])
     (auto simp: channel_inv_def)

lemma length_apply_op:
  "length (channels_db (apply_op u op s)) =
     (case op of CreateChannel _ _ _ _ \<Rightarrow> (if u = None then 0 else 1) | _ \<Rightarrow> 0) + length (channels_db s)"
  by (cases op)
     (auto simp: attempt_db length_updateDoc createChannel_def joinChannel_def
        joinChannelByInviteCode_def leaveChannel_def addMemberToChannel_def
        removeMemberFromChannel_def promoteToAdmin_def demoteFromAdmin_def
        updateChannel_def generateInviteCode_def
        split: option.splits list.splits)

text \<open>
  Claim C1. Every mutation operation of the channel store (createChannel, joinChannel,
  joinChannelByInviteCode, leaveChannel, addMemberToChannel, removeMemberFromChannel,
  promoteToAdmin, demoteFromAdmin, updateChannel, generateInviteCode), called by anybody
  with any arguments, keeps every channel document in place, and every channel that has
  its creator among its admins and its admins among its members before the call still
  has both after it, whether the call succeeds or fails; a channel the call creates has
  both from the start.
\<close>

theorem channel_invariant_preserved:
  "length (channels_db s) \<le> length (channels_db (apply_op u op s)) \<and>
   (\<forall>k < length (channels_db (apply_op u op s)).
      (k < length (channels_db s) \<longrightarrow> channel_inv (channels_db s ! k)) \<longrightarrow>
      channel_inv (channels_db (apply_op u op s) ! k))"
proof (intro conjI allI impI)
  show "length (channels_db s) \<le> length (channels_db (apply_op u op s))"
    by (simp add: length_apply_op)
next
  fix k
  assume k: "k < length (channels_db (apply_op u op s))"
    and old: "k < length (channels_db s) \<longrightarrow> channel_inv (channels_db s ! k)"
  show "channel_inv (channels_db (apply_op u op s) ! k)"
  proof (cases op)
    case (CreateChannel inp now newId uuid)
    with k old show ?thesis using inv_create [of k u inp now newId uuid s] by simp
  next
    case (JoinChannel i)
    then have "length (channels_db (apply_op u op s)) = length (channels_db s)"
      using length_apply_op [of u op s] by simp
    with k old have "k < length (channels_db s)" "channel_inv (channels_db s ! k)"
      by simp_all
    then show ?thesis using inv_join [of k s u i] by (simp add: \<open>op = _\<close>)
  next
    case (JoinChannelByInviteCode code)
    then have "length (channels_db (apply_op u op s)) = length (channels_db s)"
      using length_apply_op [of u op s] by simp
    with k old have "k < length (channels_db s)" "channel_inv (channels_db s ! k)"
      by simp_all
    then show ?thesis using inv_joinCode [of k s u code] by (simp add: \<open>op = _\<close>)
  next
    case (LeaveChannel i)
    then have "length (channels_db (apply_op u op s)) = length (channels_db s)"
      using length_apply_op [of u op s] by simp
    with k old have "k < length (channels_db s)" "channel_inv (channels_db s ! k)"
      by simp_all
    then show ?thesis using inv_leave [of k s u i] by (simp add: \<open>op = _\<close>)
  next
    case (AddMemberToChannel i x)
    then have "length (channels_db (apply_op u op s)) = length (channels_db s)"
      using length_apply_op [of u op s] by simp
    with k old have "k < length (channels_db s)" "channel_inv (channels_db s ! k)"
      by simp_all
    then show ?thesis using inv_addMember [of k s u i x] by (simp add: \<open>op = _\<close>)
  next
    case (RemoveMemberFromChannel i x)
    then have "length (channels_db (apply_op u op s)) = length (channels_db s)"
      using length_apply_op [of u op s] by simp
    with k old have "k < length (channels_db s)" "channel_inv (channels_db s ! k)"
      by simp_all
    then show ?thesis using inv_removeMember [of k s u i x] by (simp add: \<open>op = _\<close>)
  next
    case (PromoteToAdmin i x)
    then have "length (channels_db (apply_op u op s)) = length (channels_db s)"
      using length_apply_op [of u op s] by simp
    with k old have "k < length (channels_db s)" "channel_inv (channels_db s ! k)"
      by simp_all
    then show ?thesis using inv_promote [of k s u i x] by (simp add: \<open>op = _\<close>)
  next
    case (DemoteFromAdmin i x)
    then have "length (channels_db (apply_op u op s)) = length (channels_db s)"
      using length_apply_op [of u op s] by simp
    with k old have "k < length (channels_db s)" "channel_inv (channels_db s ! k)"
      by simp_all
    then show ?thesis using inv_demote [of k s u i x] by (simp add: \<open>op = _\<close>)
  next
    case (UpdateChannel i updates)
    then have "length (channels_db (apply_op u op s)) = length (channels_db s)"
      using length_apply_op [of u op s] by simp
    with k old have "k < length (channels_db s)" "channel_inv (channels_db s ! k)"
      by simp_all
    then show ?thesis using inv_update [of k s u i updates] by (simp add: \<open>op = _\<close>)
  next
    case (GenerateInviteCode i uuid)
    then have "length (channels_db (apply_op u op s)) = length (channels_db s)"
      using length_apply_op [of u op s] by simp
    with k old have "k < length (channels_db s)" "channel_inv (channels_db s ! k)"
      by simp_all
    then show ?thesis using inv_generate [of k s u i uuid] by (simp add: \<open>op = _\<close>)
  qed
qed

theorem channel_invariant_preserved_witness:
  "length (channels_db ex_store)
     \<le> length (channels_db (apply_op (Some ''bob'') (LeaveChannel ''c1'') ex_store)) \<and>
   channel_inv (channels_db ex_store ! 0) \<and>
   channel_inv (channels_db (apply_op (Some ''bob'') (LeaveChannel ''c1'') ex_store) ! 0) \<and>
   members (channels_db (apply_op (Some ''bob'') (LeaveChannel ''c1'') ex_store) ! 0) = [''alice'']"
proof -
  have after: "channels_db (apply_op (Some ''bob'') (LeaveChannel ''c1'') ex_store)
                 = [ex_channel\<lparr>members := [''alice''], admins := [''alice'']\<rparr>]"
    by (simp add: leaveChannel_def attempt_def getDoc_def ex_store_def ex_channel_def
          arrayRemove_def)
  have before: "channel_inv (channels_db ex_store ! 0)"
    by (simp add: ex_store_def ex_channel_def channel_inv_def)
  from channel_invariant_preserved [of ex_store "Some ''bob''" "LeaveChannel ''c1''"]
    before
  show ?thesis unfolding after by (simp add: ex_store_def)
qed

subsection \<open>Reading a document after an update\<close>

lemma getDoc_updateDoc_same:
  "getDoc i cs = Some c \<Longrightarrow> cid (f c) = i \<Longrightarrow> getDoc i (updateDoc i f cs) = Some (f c)"
  by (induction cs) (auto simp: getDoc_def split: if_splits)

lemma getDoc_updateDoc_other:
  "j \<noteq> i \<Longrightarrow> (\<And>c. cid (f c) = cid c) \<Longrightarrow> getDoc j (updateDoc i f cs) = getDoc j cs"
  by (induction cs) (auto simp: getDoc_def)

lemma getDoc_distinct:
  "distinct (map cid cs) \<Longrightarrow> c \<in> set cs \<Longrightarrow> getDoc (cid c) cs = Some c"
  by (induction cs) (auto simp: getDoc_def)

lemma getDoc_Some_cid: "getDoc i cs = Some c \<Longrightarrow> cid c = i \<and> c \<in> set cs"
  by (induction cs) (auto simp: getDoc_def split: if_splits)

lemma filter_find:
  "(case filter P xs of [] \<Rightarrow> a | x # _ \<Rightarrow> b x) = (case find P xs of None \<Rightarrow> a | Some x \<Rightarrow> b x)"
  by (induction xs) auto

lemma arrayUnion_new: "x \<notin> set xs \<Longrightarrow> arrayUnion x xs = xs @ [x]"
  by (simp add: arrayUnion_def)

lemma map_cid_updateDoc:
  "(\<And>c. cid (f c) = cid c) \<Longrightarrow> map cid (updateDoc i f cs) = map cid cs"
  by (induction cs) auto

lemma find_updateDoc_only:
  "getDoc i cs = Some c \<Longrightarrow> P (f c) \<Longrightarrow> (\<forall>d \<in> set cs. cid d \<noteq> i \<longrightarrow> \<not> P d) \<Longrightarrow>
     find P (updateDoc i f cs) = Some (f c)"
  by (induction cs) (auto simp: getDoc_def split: if_splits)

lemma find_updateDoc_none:
  "getDoc i cs = Some c \<Longrightarrow> \<not> P (f c) \<Longrightarrow> distinct (map cid cs) \<Longrightarrow>
     (\<forall>d \<in> set cs. cid d \<noteq> i \<longrightarrow> \<not> P d) \<Longrightarrow> find P (updateDoc i f cs) = None"
proof (induction cs)
  case Nil
  then show ?case by (simp add: getDoc_def)
next
  case (Cons a cs)
  show ?case
  proof (cases "cid a = i")
    case True
    with Cons.prems have "a = c" by (simp add: getDoc_def)
    from True Cons.prems(3) have "\<forall>d \<in> set cs. cid d \<noteq> i" by (fastforce simp: image_iff)
    with \<open>a = c\<close> Cons.prems True show ?thesis by (auto simp: find_None_iff)
  next
    case False
    with Cons show ?thesis by (auto simp: getDoc_def)
  qed
qed

lemma joinChannelByInviteCode_find:
  "joinChannelByInviteCode (Some u) code s = attempt
     (case find (\<lambda>c. inviteCode c = Some code) (channels_db s) of
        None \<Rightarrow> Inl InvalidCode
      | Some channelData \<Rightarrow>
          if u \<in> set (members channelData) then Inl AlreadyMember
          else if isPublic channelData then Inl WrongChannelType
          else Inr ((), updateDoc (cid channelData)
            (\<lambda>c. c\<lparr>members := arrayUnion u (members c)\<rparr>) (channels_db s))) s"
  by (simp add: joinChannelByInviteCode_def filter_find)

text \<open>
  Document identifiers are distinct in a collection, and stay so: no operation changes an
  identifier, and createChannel adds the one \<^verbatim>\<open>addDoc\<close> assigns.
\<close>

lemma map_cid_apply_op:
  "map cid (channels_db (apply_op u op s)) = map cid (channels_db s) \<or>
   (\<exists>inp now newId uuid. op = CreateChannel inp now newId uuid \<and>
      map cid (channels_db (apply_op u op s)) = map cid (channels_db s) @ [newId])"
  by (cases op)
     (auto simp: attempt_db map_cid_updateDoc apply_updates_def createChannel_def
        joinChannel_def joinChannelByInviteCode_def leaveChannel_def addMemberToChannel_def
        removeMemberFromChannel_def promoteToAdmin_def demoteFromAdmin_def
        updateChannel_def generateInviteCode_def
        split: option.splits list.splits)

lemma distinct_ids_kept:
  assumes "distinct (map cid (channels_db s))"
    and "\<And>inp now newId uuid. op = CreateChannel inp now newId uuid \<Longrightarrow>
           newId \<notin> set (map cid (channels_db s))"
  shows "distinct (map cid (channels_db (apply_op u op s)))"
  using map_cid_apply_op [of u op s] assms by auto

subsection \<open>Joining by identifier\<close>

text \<open>
  Claim C8. For an existing channel, joinChannel fails with AlreadyMember (and changes no
  document) when the caller is already in members; otherwise it succeeds and appends the
  caller to the members of that channel, leaving every other channel as it was. The
  visibility flag is not read: the statement holds for public and private channels alike.
\<close>

theorem joinChannel_any_visibility:
  assumes "getDoc i (channels_db s) = Some c"
  shows "(u \<in> set (members c) \<longrightarrow>
            joinChannel (Some u) i s = (Inl AlreadyMember, s\<lparr>channel_error := Some AlreadyMember\<rparr>)) \<and>
         (u \<notin> set (members c) \<longrightarrow>
            fst (joinChannel (Some u) i s) = Inr () \<and>
            getDoc i (channels_db (snd (joinChannel (Some u) i s)))
              = Some (c\<lparr>members := members c @ [u]\<rparr>) \<and>
            (\<forall>j. j \<noteq> i \<longrightarrow>
               getDoc j (channels_db (snd (joinChannel (Some u) i s))) = getDoc j (channels_db s)))"
proof (intro conjI impI allI)
  assume "u \<in> set (members c)"
  with assms show "joinChannel (Some u) i s
      = (Inl AlreadyMember, s\<lparr>channel_error := Some AlreadyMember\<rparr>)"
    by (simp add: joinChannel_def attempt_def)
next
  assume new: "u \<notin> set (members c)"
  with assms show "fst (joinChannel (Some u) i s) = Inr ()"
    by (simp add: joinChannel_def attempt_def)
  from assms have "cid c = i" by (simp add: getDoc_Some_cid)
  with assms new show "getDoc i (channels_db (snd (joinChannel (Some u) i s)))
      = Some (c\<lparr>members := members c @ [u]\<rparr>)"
    by (simp add: joinChannel_def attempt_def getDoc_updateDoc_same arrayUnion_new)
  fix j :: string
  assume "j \<noteq> i"
  with assms new show "getDoc j (channels_db (snd (joinChannel (Some u) i s)))
      = getDoc j (channels_db s)"
    by (simp add: joinChannel_def attempt_def getDoc_updateDoc_other)
qed

theorem joinChannel_any_visibility_witness:
  "getDoc ''c1'' (channels_db ex_store) = Some ex_channel \<and> \<not> isPublic ex_channel \<and>
   joinChannel (Some ''bob'') ''c1'' ex_store
     = (Inl AlreadyMember, ex_store\<lparr>channel_error := Some AlreadyMember\<rparr>) \<and>
   fst (joinChannel (Some ''carol'') ''c1'' ex_store) = Inr () \<and>
   getDoc ''c1'' (channels_db (snd (joinChannel (Some ''carol'') ''c1'' ex_store)))
     = Some (ex_channel\<lparr>members := [''alice'', ''bob'', ''carol'']\<rparr>)"
proof -
  have h: "getDoc ''c1'' (channels_db ex_store) = Some ex_channel"
    by (simp add: getDoc_def ex_store_def ex_channel_def)
  from h joinChannel_any_visibility [OF h, of "''bob''"]
    joinChannel_any_visibility [OF h, of "''carol''"]
  show ?thesis by (simp add: ex_channel_def)
qed

subsection \<open>Joining by invite code\<close>

text \<open>
  Claim C5. joinChannelByInviteCode, with the checks in the order in which the claim lists
  them: it fails with InvalidCode when no channel stores the code; otherwise the matched
  channel is the first one that stores it, and the call fails with AlreadyMember when the
  caller is in its members, fails with WrongChannelType when (the caller not being a
  member) the channel is public, and succeeds otherwise. Every failure leaves all
  channel documents as they were; a success appends the caller to the members of the
  matched channel and leaves every other channel as it was (channel identifiers being
  distinct, as document identifiers are).
\<close>

theorem joinChannelByInviteCode_outcomes:
  "((\<forall>c \<in> set (channels_db s). inviteCode c \<noteq> Some code) \<longrightarrow>
      joinChannelByInviteCode (Some u) code s
        = (Inl InvalidCode, s\<lparr>channel_error := Some InvalidCode\<rparr>)) \<and>
   (\<forall>c. find (\<lambda>c. inviteCode c = Some code) (channels_db s) = Some c \<longrightarrow>
      (u \<in> set (members c) \<longrightarrow>
         joinChannelByInviteCode (Some u) code s
           = (Inl AlreadyMember, s\<lparr>channel_error := Some AlreadyMember\<rparr>)) \<and>
      (u \<notin> set (members c) \<and> isPublic c \<longrightarrow>
         joinChannelByInviteCode (Some u) code s
           = (Inl WrongChannelType, s\<lparr>channel_error := Some WrongChannelType\<rparr>)) \<and>
      (u \<notin> set (members c) \<and> \<not> isPublic c \<longrightarrow>
         fst (joinChannelByInviteCode (Some u) code s) = Inr () \<and>
         (distinct (map cid (channels_db s)) \<longrightarrow>
            getDoc (cid c) (channels_db (snd (joinChannelByInviteCode (Some u) code s)))
              = Some (c\<lparr>members := members c @ [u]\<rparr>) \<and>
            (\<forall>j. j \<noteq> cid c \<longrightarrow>
               getDoc j (channels_db (snd (joinChannelByInviteCode (Some u) code s)))
                 = getDoc j (channels_db s)))))"
proof (intro conjI allI impI)
  assume "\<forall>c \<in> set (channels_db s). inviteCode c \<noteq> Some code"
  then have "filter (\<lambda>c. inviteCode c = Some code) (channels_db s) = []"
    by (simp add: filter_empty_conv)
  then show "joinChannelByInviteCode (Some u) code s
      = (Inl InvalidCode, s\<lparr>channel_error := Some InvalidCode\<rparr>)"
    by (simp add: joinChannelByInviteCode_def attempt_def)
next
  fix c
  assume f: "find (\<lambda>c. inviteCode c = Some code) (channels_db s) = Some c"
  assume "u \<in> set (members c)"
  with f show "joinChannelByInviteCode (Some u) code s
      = (Inl AlreadyMember, s\<lparr>channel_error := Some AlreadyMember\<rparr>)"
    by (simp add: joinChannelByInviteCode_def attempt_def filter_find)
next
  fix c
  assume f: "find (\<lambda>c. inviteCode c = Some code) (channels_db s) = Some c"
  assume "u \<notin> set (members c) \<and> isPublic c"
  with f show "joinChannelByInviteCode (Some u) code s
      = (Inl WrongChannelType, s\<lparr>channel_error := Some WrongChannelType\<rparr>)"
    by (simp add: joinChannelByInviteCode_def attempt_def filter_find)
next
  fix c
  assume f: "find (\<lambda>c. inviteCode c = Some code) (channels_db s) = Some c"
  assume ok: "u \<notin> set (members c) \<and> \<not> isPublic c"
  from f ok have db: "channels_db (snd (joinChannelByInviteCode (Some u) code s))
      = updateDoc (cid c) (\<lambda>d. d\<lparr>members := arrayUnion u (members d)\<rparr>) (channels_db s)"
    by (simp add: joinChannelByInviteCode_def attempt_def filter_find)
  from f ok show "fst (joinChannelByInviteCode (Some u) code s) = Inr ()"
    by (simp add: joinChannelByInviteCode_def attempt_def filter_find)
  {
    assume d: "distinct (map cid (channels_db s))"
    from f have "c \<in> set (channels_db s)" by (auto simp: find_Some_iff)
    with d have "getDoc (cid c) (channels_db s) = Some c" by (rule getDoc_distinct)
    with ok show "getDoc (cid c) (channels_db (snd (joinChannelByInviteCode (Some u) code s)))
        = Some (c\<lparr>members := members c @ [u]\<rparr>)"
      unfolding db by (simp add: getDoc_updateDoc_same arrayUnion_new)
  }
  {
    fix j :: string
    assume "j \<noteq> cid c"
    then show "getDoc j (channels_db (snd (joinChannelByInviteCode (Some u) code s)))
        = getDoc j (channels_db s)"
      unfolding db by (simp add: getDoc_updateDoc_other)
  }
qed

theorem joinChannelByInviteCode_outcomes_witness:
  "joinChannelByInviteCode (Some ''carol'') ''nope'' ex_store2
     = (Inl InvalidCode, ex_store2\<lparr>channel_error := Some InvalidCode\<rparr>) \<and>
   joinChannelByInviteCode (Some ''bob'') ''K1'' ex_store2
     = (Inl AlreadyMember, ex_store2\<lparr>channel_error := Some AlreadyMember\<rparr>) \<and>
   joinChannelByInviteCode (Some ''carol'') ''P1'' ex_store2
     = (Inl WrongChannelType, ex_store2\<lparr>channel_error := Some WrongChannelType\<rparr>) \<and>
   fst (joinChannelByInviteCode (Some ''carol'') ''K1'' ex_store2) = Inr () \<and>
   getDoc ''c1'' (channels_db (snd (joinChannelByInviteCode (Some ''carol'') ''K1'' ex_store2)))
     = Some (ex_channel\<lparr>members := [''alice'', ''bob'', ''carol'']\<rparr>)"
  using joinChannelByInviteCode_outcomes [of ex_store2 "''nope''" "''carol''"]
    joinChannelByInviteCode_outcomes [of ex_store2 "''K1''" "''bob''"]
    joinChannelByInviteCode_outcomes [of ex_store2 "''P1''" "''carol''"]
    joinChannelByInviteCode_outcomes [of ex_store2 "''K1''" "''carol''"]
  by (simp add: ex_store2_def ex_channel_def ex_public_channel_def)

subsection \<open>Invite codes\<close>

text \<open>
  Claim C3 as stated fails: the invite code of a reachable channel is not tied to its
  visibility. The creator of a public channel generates a code for it; the channel is then
  public and has a code, and joining with that code fails with WrongChannelType.
\<close>

theorem invite_code_on_public_channel:
  "fst (generateInviteCode (Some ''alice'') ''c2'' ''P1'' ex_created) = Inr ''P1'' \<and>
   channels_db ex_regenerated = [ex_public_channel] \<and>
   isPublic ex_public_channel \<and> inviteCode ex_public_channel = Some ''P1'' \<and>
   fst (joinChannelByInviteCode (Some ''bob'') ''P1'' ex_regenerated) = Inl WrongChannelType"
  by (simp add: ex_regenerated_def ex_created_def ex_public_input_def empty_store_def
        ex_public_channel_def createChannel_def generateInviteCode_def
        joinChannelByInviteCode_def attempt_def getDoc_def)

text \<open>
  Every operation keeps the rule on invite codes for every channel, the two calls named by
  \<open>breaks_code_rule\<close> apart; a channel that createChannel creates follows it.
\<close>

lemma code_rule_create:
  "k < length (channels_db (snd (createChannel u inp now newId uuid s))) \<Longrightarrow>
   (k < length (channels_db s) \<longrightarrow> code_iff_private (channels_db s ! k)) \<Longrightarrow>
   code_iff_private (channels_db (snd (createChannel u inp now newId uuid s)) ! k)"
  by (cases u) (auto simp: createChannel_def attempt_db nth_append code_iff_private_def less_Suc_eq)

lemma code_rule_kept:
  assumes nb: "\<not> breaks_code_rule u op (channels_db s)"
    and k: "k < length (channels_db (apply_op u op s))"
    and old: "k < length (channels_db s) \<longrightarrow> code_iff_private (channels_db s ! k)"
  shows "code_iff_private (channels_db (apply_op u op s) ! k)"
proof (cases "\<exists>inp now newId uuid. op = CreateChannel inp now newId uuid")
  case True
  with k old show ?thesis using code_rule_create [of k u _ _ _ _ s] by auto
next
  case False
  then have "length (channels_db (apply_op u op s)) = length (channels_db s)"
    using length_apply_op [of u op s] by (cases op) auto
  with k old have k': "k < length (channels_db s)" and c: "code_iff_private (channels_db s ! k)"
    by simp_all
  note keep = updateDoc_keeps [where P = code_iff_private, OF k' c]
  show ?thesis
  proof (cases op)
    case (CreateChannel inp now newId uuid)
    with False show ?thesis by simp
  next
    case (JoinChannel i)
    show ?thesis unfolding JoinChannel apply_op.simps joinChannel_def attempt_db
      by (auto split: option.splits intro!: keep simp: c) (auto simp: code_iff_private_def)
  next
    case (JoinChannelByInviteCode code)
    show ?thesis unfolding JoinChannelByInviteCode apply_op.simps joinChannelByInviteCode_def attempt_db
      by (auto split: option.splits list.splits intro!: keep simp: c)
         (auto simp: code_iff_private_def)
  next
    case (LeaveChannel i)
    show ?thesis unfolding LeaveChannel apply_op.simps leaveChannel_def attempt_db
      by (auto split: option.splits intro!: keep simp: c) (auto simp: code_iff_private_def)
  next
    case (AddMemberToChannel i x)
    show ?thesis unfolding AddMemberToChannel apply_op.simps addMemberToChannel_def attempt_db
      by (auto split: option.splits intro!: keep simp: c) (auto simp: code_iff_private_def)
  next
    case (RemoveMemberFromChannel i x)
    show ?thesis
      unfolding RemoveMemberFromChannel apply_op.simps removeMemberFromChannel_def attempt_db
      by (auto split: option.splits intro!: keep simp: c) (auto simp: code_iff_private_def)
  next
    case (PromoteToAdmin i x)
    show ?thesis unfolding PromoteToAdmin apply_op.simps promoteToAdmin_def attempt_db
      by (auto split: option.splits intro!: keep simp: c) (auto simp: code_iff_private_def)
  next
    case (DemoteFromAdmin i x)
    show ?thesis unfolding DemoteFromAdmin apply_op.simps demoteFromAdmin_def attempt_db
      by (auto split: option.splits intro!: keep simp: c) (auto simp: code_iff_private_def)
  next
    case (UpdateChannel i updates)
    with nb show ?thesis unfolding UpdateChannel apply_op.simps updateChannel_def attempt_db
      by (auto split: option.splits intro!: keep simp: c)
         (auto simp: code_iff_private_def apply_updates_def split: option.splits)
  next
    case (GenerateInviteCode i uuid)
    with nb show ?thesis unfolding GenerateInviteCode apply_op.simps generateInviteCode_def attempt_db
      by (auto split: option.splits intro!: keep simp: c) (auto simp: code_iff_private_def)
  qed
qed

lemma code_rule_kept_all:
  "no_break ops s \<Longrightarrow> list_all code_iff_private (channels_db s) \<Longrightarrow>
     list_all code_iff_private (channels_db (run_ops ops s))"
proof (induction ops arbitrary: s)
  case Nil
  then show ?case by simp
next
  case (Cons a ops)
  obtain caller op where a: "a = (caller, op)" by (cases a) auto
  from Cons.prems a have nb: "\<not> breaks_code_rule caller op (channels_db s)"
    and rest: "no_break ops (apply_op caller op s)"
    by simp_all
  have "list_all code_iff_private (channels_db (apply_op caller op s))"
    unfolding list_all_length
  proof (intro allI impI)
    fix k
    assume k: "k < length (channels_db (apply_op caller op s))"
    from Cons.prems(2)
    have "k < length (channels_db s) \<longrightarrow> code_iff_private (channels_db s ! k)"
      by (simp add: list_all_length)
    with nb k show "code_iff_private (channels_db (apply_op caller op s) ! k)"
      by (rule code_rule_kept)
  qed
  from Cons.IH [OF rest this] a show ?case by simp
qed

text \<open>
  Claim C3, as amended. Every channel has an invite code exactly when it is private, from
  its creation by createChannel and through every operation of the channel store, as long
  as generateInviteCode is not called on a public channel and updateChannel does not change
  the visibility: each other call keeps the rule for every channel, and so does every
  sequence of such calls. generateInviteCode, called by any admin, returns the fresh token,
  overwrites the stored code with it whatever the visibility of the channel (a public
  channel then has a code), and changes no other channel. updateChannel, called by any
  admin, leaves the code as it is and sets the visibility it is given (a channel whose
  visibility it changes no longer follows the rule). After a private channel's code has
  been regenerated to a new code, where no other channel stores the old or the new code,
  joinChannelByInviteCode fails with InvalidCode on the old code and, for a caller who is
  not yet a member, succeeds on the new code and adds the caller to the channel.
\<close>

theorem invite_code_regeneration:
  "(\<not> breaks_code_rule caller op (channels_db s) \<longrightarrow>
      (\<forall>k < length (channels_db (apply_op caller op s)).
         (k < length (channels_db s) \<longrightarrow> code_iff_private (channels_db s ! k)) \<longrightarrow>
         code_iff_private (channels_db (apply_op caller op s) ! k))) \<and>
   (no_break ops s \<and> list_all code_iff_private (channels_db s) \<longrightarrow>
      list_all code_iff_private (channels_db (run_ops ops s))) \<and>
   (\<forall>c. getDoc i (channels_db s) = Some c \<and> u \<in> set (admins c) \<longrightarrow>
      fst (generateInviteCode (Some u) i newCode s) = Inr newCode \<and>
      getDoc i (channels_db (snd (generateInviteCode (Some u) i newCode s)))
        = Some (c\<lparr>inviteCode := Some newCode\<rparr>) \<and>
      (\<forall>j. j \<noteq> i \<longrightarrow>
         getDoc j (channels_db (snd (generateInviteCode (Some u) i newCode s)))
           = getDoc j (channels_db s)) \<and>
      (isPublic c \<longrightarrow> \<not> code_iff_private (c\<lparr>inviteCode := Some newCode\<rparr>)) \<and>
      fst (updateChannel (Some u) i updates s) = Inr () \<and>
      getDoc i (channels_db (snd (updateChannel (Some u) i updates s)))
        = Some (apply_updates updates c) \<and>
      inviteCode (apply_updates updates c) = inviteCode c \<and>
      isPublic (apply_updates updates c)
        = (case up_isPublic updates of None \<Rightarrow> isPublic c | Some b \<Rightarrow> b) \<and>
      (code_iff_private c \<and> up_isPublic updates = Some (\<not> isPublic c) \<longrightarrow>
         \<not> code_iff_private (apply_updates updates c)) \<and>
      (\<not> isPublic c \<and> oldCode \<noteq> newCode \<and> distinct (map cid (channels_db s)) \<and>
       (\<forall>d \<in> set (channels_db s). cid d \<noteq> i \<longrightarrow>
          inviteCode d \<noteq> Some oldCode \<and> inviteCode d \<noteq> Some newCode) \<longrightarrow>
         fst (joinChannelByInviteCode (Some v) oldCode (snd (generateInviteCode (Some u) i newCode s)))
           = Inl InvalidCode \<and>
         (v \<notin> set (members c) \<longrightarrow>
            fst (joinChannelByInviteCode (Some v) newCode (snd (generateInviteCode (Some u) i newCode s)))
              = Inr () \<and>
            getDoc i (channels_db (snd (joinChannelByInviteCode (Some v) newCode
                        (snd (generateInviteCode (Some u) i newCode s)))))
              = Some (c\<lparr>inviteCode := Some newCode, members := members c @ [v]\<rparr>))))"
proof (intro conjI allI impI; (elim conjE)?)
  fix k
  assume "\<not> breaks_code_rule caller op (channels_db s)"
    and "k < length (channels_db (apply_op caller op s))"
    and "k < length (channels_db s) \<longrightarrow> code_iff_private (channels_db s ! k)"
  then show "code_iff_private (channels_db (apply_op caller op s) ! k)"
    by (rule code_rule_kept)
next
  assume "no_break ops s" and "list_all code_iff_private (channels_db s)"
  then show "list_all code_iff_private (channels_db (run_ops ops s))"
    by (rule code_rule_kept_all)
next
  fix c
  assume c: "getDoc i (channels_db s) = Some c" and adm: "u \<in> set (admins c)"
  let ?s' = "snd (generateInviteCode (Some u) i newCode s)"
  from c adm have db: "channels_db ?s'
      = updateDoc i (\<lambda>c. c\<lparr>inviteCode := Some newCode\<rparr>) (channels_db s)"
    by (simp add: generateInviteCode_def attempt_def)
  from c have cid: "cid c = i" by (simp add: getDoc_Some_cid)
  from c adm show "fst (generateInviteCode (Some u) i newCode s) = Inr newCode"
    by (simp add: generateInviteCode_def attempt_def)
  from c cid show new: "getDoc i (channels_db ?s') = Some (c\<lparr>inviteCode := Some newCode\<rparr>)"
    unfolding db by (simp add: getDoc_updateDoc_same)
  {
    fix j :: string
    assume "j \<noteq> i"
    then show "getDoc j (channels_db ?s') = getDoc j (channels_db s)"
      unfolding db by (simp add: getDoc_updateDoc_other)
  }
  {
    assume "isPublic c"
    then show "\<not> code_iff_private (c\<lparr>inviteCode := Some newCode\<rparr>)"
      by (simp add: code_iff_private_def)
  }
  from c adm show "fst (updateChannel (Some u) i updates s) = Inr ()"
    by (simp add: updateChannel_def attempt_def)
  from c adm cid
  show "getDoc i (channels_db (snd (updateChannel (Some u) i updates s)))
      = Some (apply_updates updates c)"
    by (simp add: updateChannel_def attempt_def getDoc_updateDoc_same apply_updates_def)
  show "inviteCode (apply_updates updates c) = inviteCode c"
    by (simp add: apply_updates_def)
  show "isPublic (apply_updates updates c)
      = (case up_isPublic updates of None \<Rightarrow> isPublic c | Some b \<Rightarrow> b)"
    by (simp add: apply_updates_def)
  {
    assume "code_iff_private c" and "up_isPublic updates = Some (\<not> isPublic c)"
    then show "\<not> code_iff_private (apply_updates updates c)"
      by (auto simp: code_iff_private_def apply_updates_def)
  }
  assume priv: "\<not> isPublic c" and ne: "oldCode \<noteq> newCode"
    and dist: "distinct (map cid (channels_db s))"
    and others: "\<forall>d \<in> set (channels_db s). cid d \<noteq> i \<longrightarrow>
                   inviteCode d \<noteq> Some oldCode \<and> inviteCode d \<noteq> Some newCode"
  from c ne dist others
  have "find (\<lambda>d. inviteCode d = Some oldCode) (channels_db ?s') = None"
    unfolding db by (intro find_updateDoc_none [where c = c]) auto
  then show "fst (joinChannelByInviteCode (Some v) oldCode ?s') = Inl InvalidCode"
    by (simp add: joinChannelByInviteCode_find attempt_def)
  assume v: "v \<notin> set (members c)"
  from c others
  have found: "find (\<lambda>d. inviteCode d = Some newCode) (channels_db ?s')
                 = Some (c\<lparr>inviteCode := Some newCode\<rparr>)"
    unfolding db by (intro find_updateDoc_only) auto
  with v priv show "fst (joinChannelByInviteCode (Some v) newCode ?s') = Inr ()"
    by (simp add: joinChannelByInviteCode_find attempt_def)
  from found v priv cid
  have "channels_db (snd (joinChannelByInviteCode (Some v) newCode ?s'))
      = updateDoc i (\<lambda>c. c\<lparr>members := arrayUnion v (members c)\<rparr>) (channels_db ?s')"
    by (simp add: joinChannelByInviteCode_find attempt_def)
  with new v cid
  show "getDoc i (channels_db (snd (joinChannelByInviteCode (Some v) newCode ?s')))
      = Some (c\<lparr>inviteCode := Some newCode, members := members c @ [v]\<rparr>)"
    by (simp add: getDoc_updateDoc_same arrayUnion_new)
qed

theorem invite_code_regeneration_witness:
  "no_break ex_ops empty_store \<and>
   channels_db (run_ops ex_ops empty_store) = [ex_channel\<lparr>inviteCode := Some ''K2''\<rparr>] \<and>
   code_iff_private (ex_channel\<lparr>inviteCode := Some ''K2''\<rparr>) \<and>
   getDoc ''c1'' (channels_db ex_store2) = Some ex_channel \<and>
   ''bob'' \<in> set (admins ex_channel) \<and> ''bob'' \<noteq> createdBy ex_channel \<and>
   inviteCode ex_channel = Some ''K1'' \<and> code_iff_private ex_channel \<and>
   \<not> breaks_code_rule (Some ''bob'') (GenerateInviteCode ''c1'' ''K2'') (channels_db ex_store2) \<and>
   code_iff_private
     (channels_db (apply_op (Some ''bob'') (GenerateInviteCode ''c1'' ''K2'') ex_store2) ! 0) \<and>
   fst (generateInviteCode (Some ''bob'') ''c1'' ''K2'' ex_store2) = Inr ''K2'' \<and>
   getDoc ''c1'' (channels_db (snd (generateInviteCode (Some ''bob'') ''c1'' ''K2'' ex_store2)))
     = Some (ex_channel\<lparr>inviteCode := Some ''K2''\<rparr>) \<and>
   breaks_code_rule (Some ''bob'') (UpdateChannel ''c1'' ex_make_public) (channels_db ex_store2) \<and>
   getDoc ''c1'' (channels_db (snd (updateChannel (Some ''bob'') ''c1'' ex_make_public ex_store2)))
     = Some (ex_channel\<lparr>isPublic := True\<rparr>) \<and>
   \<not> code_iff_private (ex_channel\<lparr>isPublic := True\<rparr>) \<and>
   fst (joinChannelByInviteCode (Some ''carol'') ''K1''
          (snd (generateInviteCode (Some ''bob'') ''c1'' ''K2'' ex_store2))) = Inl InvalidCode \<and>
   fst (joinChannelByInviteCode (Some ''carol'') ''K2''
          (snd (generateInviteCode (Some ''bob'') ''c1'' ''K2'' ex_store2))) = Inr () \<and>
   getDoc ''c1'' (channels_db (snd (joinChannelByInviteCode (Some ''carol'') ''K2''
                    (snd (generateInviteCode (Some ''bob'') ''c1'' ''K2'' ex_store2)))))
     = Some (ex_channel\<lparr>inviteCode := Some ''K2'', members := [''alice'', ''bob'', ''carol'']\<rparr>)"
proof -
  have h: "getDoc ''c1'' (channels_db ex_store2) = Some ex_channel"
    by (simp add: getDoc_def ex_store2_def ex_channel_def)
  have run: "channels_db (run_ops ex_ops empty_store) = [ex_channel\<lparr>inviteCode := Some ''K2''\<rparr>]"
    and nb: "no_break ex_ops empty_store"
    by (simp_all add: ex_ops_def empty_store_def ex_private_input_def ex_channel_def
          createChannel_def joinChannelByInviteCode_def promoteToAdmin_def
          generateInviteCode_def attempt_def getDoc_def arrayUnion_def)
  from h run nb
    invite_code_regeneration [where s = ex_store2 and u = "''bob''" and i = "''c1''"
      and newCode = "''K2''" and oldCode = "''K1''" and v = "''carol''"
      and caller = "Some ''bob''" and op = "GenerateInviteCode ''c1'' ''K2''"
      and updates = ex_make_public and ops = "[]"]
    invite_code_regeneration [where s = empty_store and ops = ex_ops]
  show ?thesis
    by (simp add: ex_store2_def ex_channel_def ex_public_channel_def ex_make_public_def
          code_iff_private_def apply_updates_def getDoc_def generateInviteCode_def attempt_def)
qed

section \<open>The task store: status and shopping items\<close>

subsection \<open>Reading a task document after an update\<close>

lemma updateTaskDoc_None: "(updateTaskDoc ch i f ts = None) = (getTaskDoc ch i ts = None)"
  by (induction ts) (auto simp: getTaskDoc_def)

lemma find_Some_holds: "find P xs = Some x \<Longrightarrow> P x"
  by (induction xs) (auto split: if_splits)

lemma find_updateTaskDoc:
  assumes "updateTaskDoc ch i f ts = Some ts'"
    and "\<And>x. at_ref ch i x \<Longrightarrow> P (f x) = P x"
  shows "\<exists>d. getTaskDoc ch i ts = Some d \<and>
              find P ts' = map_option (\<lambda>t. if t = d then f d else t) (find P ts)"
  using assms(1)
proof (induction ts arbitrary: ts')
  case Nil
  then show ?case by simp
next
  case (Cons a ts)
  show ?case
  proof (cases "at_ref ch i a")
    case True
    with Cons.prems assms(2) [of a] show ?thesis
      by (cases "find P ts") (auto simp: getTaskDoc_def dest: find_Some_holds)
  next
    case False
    with Cons.prems obtain r where r: "updateTaskDoc ch i f ts = Some r" and ts': "ts' = a # r"
      by auto
    from Cons.IH [OF r] obtain d where d: "getTaskDoc ch i ts = Some d"
      and f: "find P r = map_option (\<lambda>t. if t = d then f d else t) (find P ts)"
      by blast
    from d have "at_ref ch i d" by (auto simp: getTaskDoc_def dest: find_Some_holds)
    with False have "a \<noteq> d" by auto
    with False d f ts' show ?thesis by (auto simp: getTaskDoc_def)
  qed
qed

lemma getTaskDoc_written:
  assumes "updateTaskDoc ch i f ts = Some ts'"
    and "\<And>x. at_ref ch i x \<Longrightarrow> at_ref ch i (f x)"
  shows "\<exists>d. getTaskDoc ch i ts = Some d \<and> getTaskDoc ch i ts' = Some (f d)"
proof -
  from assms(2) have "\<And>x. at_ref ch i x \<Longrightarrow> at_ref ch i (f x) = at_ref ch i x" by simp
  from find_updateTaskDoc [OF assms(1), of "at_ref ch i", OF this]
  show ?thesis by (auto simp: getTaskDoc_def)
qed

lemma attempt_task_Inr:
  "attempt_task r s = (Inr v, s') \<Longrightarrow> \<exists>ts. r = Inr (v, ts) \<and> s' = s\<lparr>tasks := ts, task_error := None\<rparr>"
  by (auto simp: attempt_task_def split: sum.splits prod.splits)

lemma write_task_Inr:
  "write_task ch i f ts = Inr (v, ts') \<Longrightarrow> updateTaskDoc ch i f ts = Some ts'"
  by (auto simp: write_task_def split: option.splits)

lemma written_status_derived:
  "status_derived (d\<lparr>shoppingItems := Some xs, status := newStatus xs,
                      completed := list_all item_completed xs\<rparr>)"
  by (auto simp: status_derived_def newStatus_def list_all_iff list_ex_iff)

lemma toggleShoppingItem_Inr:
  assumes "toggleShoppingItem u taskId itemId b ch s = (Inr v, s')"
  shows "\<exists>task items ts'.
           u \<noteq> None \<and> find (\<lambda>t. tid t = taskId) (tasks s) = Some task \<and>
           shoppingItems task = Some items \<and>
           updateTaskDoc ch taskId
             (\<lambda>d. d\<lparr>shoppingItems := Some (toggled itemId b items),
                     status := newStatus (toggled itemId b items),
                     completed := list_all item_completed (toggled itemId b items)\<rparr>)
             (tasks s) = Some ts' \<and>
           s' = s\<lparr>tasks := ts', task_error := None\<rparr>"
proof -
  from attempt_task_Inr [OF assms [unfolded toggleShoppingItem_def]]
  obtain ts where r: "(case u of
        None \<Rightarrow> Inl NotLoggedIn
      | Some u \<Rightarrow>
          (case find (\<lambda>t. tid t = taskId) (tasks s) of
             None \<Rightarrow> Inl TaskNotFound
           | Some task \<Rightarrow>
               (case shoppingItems task of
                  None \<Rightarrow> Inl TaskNotFound
                | Some items \<Rightarrow>
                    (let updatedItems =
                           map (\<lambda>item. if item_id item = itemId
                                        then item\<lparr>item_completed := b\<rparr> else item) items
                     in write_task ch taskId
                          (\<lambda>d. d\<lparr>shoppingItems := Some updatedItems,
                                  status := newStatus updatedItems,
                                  completed := list_all item_completed updatedItems\<rparr>)
                          (tasks s))))) = Inr (v, ts)"
    and s': "s' = s\<lparr>tasks := ts, task_error := None\<rparr>"
    by blast
  from r s' show ?thesis
    by (auto simp: toggled_def Let_def split: option.splits dest!: write_task_Inr)
qed

lemma at_ref_written:
  "at_ref ch i (d\<lparr>shoppingItems := xs, status := st, completed := c\<rparr>) = at_ref ch i d"
  by (simp add: at_ref_def)

lemma toggle_establishes:
  assumes "toggleShoppingItem u taskId itemId b ch s = (Inr v, s')"
  shows "\<exists>t. getTaskDoc ch taskId (tasks s') = Some t \<and> status_derived t"
proof -
  from toggleShoppingItem_Inr [OF assms] obtain items ts' where
    up: "updateTaskDoc ch taskId
             (\<lambda>d. d\<lparr>shoppingItems := Some (toggled itemId b items),
                     status := newStatus (toggled itemId b items),
                     completed := list_all item_completed (toggled itemId b items)\<rparr>)
             (tasks s) = Some ts'"
    and s': "s' = s\<lparr>tasks := ts', task_error := None\<rparr>"
    by blast
  from getTaskDoc_written [OF up] s' show ?thesis
    by (auto simp: written_status_derived at_ref_written)
qed

lemma toggle_keeps:
  assumes "toggleShoppingItem u taskId itemId b ch s = (Inr v, s')"
    and "getTaskDoc ch0 i0 (tasks s) = Some t" and "status_derived t"
  shows "\<exists>t'. getTaskDoc ch0 i0 (tasks s') = Some t' \<and> status_derived t'"
proof -
  from toggleShoppingItem_Inr [OF assms(1)] obtain items ts' where
    up: "updateTaskDoc ch taskId
             (\<lambda>d. d\<lparr>shoppingItems := Some (toggled itemId b items),
                     status := newStatus (toggled itemId b items),
                     completed := list_all item_completed (toggled itemId b items)\<rparr>)
             (tasks s) = Some ts'"
    and s': "s' = s\<lparr>tasks := ts', task_error := None\<rparr>"
    by blast
  from find_updateTaskDoc [OF up, of "at_ref ch0 i0"] assms(2,3) s' show ?thesis
    by (auto simp: getTaskDoc_def written_status_derived at_ref_written)
qed

lemma toggle_all_keeps:
  "toggle_all u calls s = Some s' \<Longrightarrow> getTaskDoc ch0 i0 (tasks s) = Some t \<Longrightarrow>
     status_derived t \<Longrightarrow> \<exists>t'. getTaskDoc ch0 i0 (tasks s') = Some t' \<and> status_derived t'"
proof (induction calls arbitrary: s t)
  case Nil
  then show ?case by simp
next
  case (Cons c calls)
  obtain taskId itemId b ch where c: "c = (taskId, itemId, b, ch)" by (cases c) auto
  from Cons.prems(1) c obtain v s1 where
    step: "toggleShoppingItem u taskId itemId b ch s = (Inr v, s1)"
    and rest: "toggle_all u calls s1 = Some s'"
    by (auto split: prod.splits sum.splits)
  from toggle_keeps [OF step Cons.prems(2,3)] obtain t1 where
    "getTaskDoc ch0 i0 (tasks s1) = Some t1" "status_derived t1" by blast
  from Cons.IH [OF rest this] show ?case .
qed

lemma map_updateTaskDoc:
  "updateTaskDoc ch i f ts = Some ts' \<Longrightarrow> (\<And>x. g (f x) = g x) \<Longrightarrow> map g ts' = map g ts"
  by (induction ts arbitrary: ts') (auto split: if_splits)

lemma updateTask_tasks:
  "tasks (snd (updateTask cur uuids i updates s)) = tasks s \<or>
   updateTaskDoc (value_of (u_channelId updates)) i (updatedData uuids updates) (tasks s)
     = Some (tasks (snd (updateTask cur uuids i updates s)))"
  by (auto simp: updateTask_def attempt_task_def write_task_def split: option.splits)

lemma at_ref_updatedData:
  "at_ref (value_of (u_channelId updates)) i x \<Longrightarrow>
     at_ref (value_of (u_channelId updates)) i (updatedData uuids updates x)"
  by (auto simp: at_ref_def truthy_def updatedData_def keep_opt_def
        split: option.splits if_splits)

lemma has_undefined_task_object: "has_undefined (task_object t) = (dueDate t = None)"
proof -
  have items: "\<And>xs :: ShoppingItem list.
      \<not> list_ex (\<lambda>item. in_quantity item = Undefined)
          (map (\<lambda>item. \<lparr>in_item_id = Some (item_id item), in_item_name = item_name item,
                        in_item_completed = Some (item_completed item),
                        in_quantity = present (quantity item)\<rparr>) xs)"
    by (auto simp: list_ex_iff present_def split: option.splits)
  show ?thesis
    using items
    by (cases "shoppingItems t")
       (auto simp: has_undefined_def task_object_def present_def value_of_def
          split: option.splits)
qed

subsection \<open>toggleShoppingItem\<close>

text \<open>
  Claim C2 as stated fails on a shopping task with an empty item list: a call of
  toggleShoppingItem on it succeeds and stores the status completed, although no item's
  completed flag is true. The status is then not the one the specification derives.
\<close>

theorem toggleShoppingItem_empty_list:
  "toggle_all (Some ''alice'') [(''t0'', ''i1'', False, None)]
       \<lparr>tasks = [ex_empty_list], task_error = None\<rparr>
     = Some \<lparr>tasks = [ex_empty_list\<lparr>status := Completed, completed := True\<rparr>],
             task_error = None\<rparr> \<and>
   shoppingItems (ex_empty_list\<lparr>status := Completed, completed := True\<rparr>) = Some [] \<and>
   \<not> status_as_claimed (ex_empty_list\<lparr>status := Completed, completed := True\<rparr>)"
  by (simp add: toggleShoppingItem_def attempt_task_def write_task_def at_ref_def
        truthy_def newStatus_def ex_empty_list_def status_as_claimed_def)

text \<open>
  Claim C2, as amended. After any sequence of successful toggleShoppingItem calls, every
  task document that a call of the sequence wrote has a status derived from its items:
  completed iff every item's completed flag is true (so also when the task has no item),
  not_started iff the task has an item and no item's completed flag is true, in_progress
  otherwise; and its completed flag equals (status == completed).
\<close>

theorem toggleShoppingItem_status_derived:
  assumes "toggle_all u calls s = Some s'"
    and "(taskId, itemId, b, ch) \<in> set calls"
  shows "\<exists>t. getTaskDoc ch taskId (tasks s') = Some t \<and> status_derived t"
  using assms
proof (induction calls arbitrary: s)
  case Nil
  then show ?case by simp
next
  case (Cons c calls)
  obtain taskId1 itemId1 b1 ch1 where c: "c = (taskId1, itemId1, b1, ch1)" by (cases c) auto
  from Cons.prems(1) c obtain v s1 where
    step: "toggleShoppingItem u taskId1 itemId1 b1 ch1 s = (Inr v, s1)"
    and rest: "toggle_all u calls s1 = Some s'"
    by (auto split: prod.splits sum.splits)
  show ?case
  proof (cases "(taskId, itemId, b, ch) \<in> set calls")
    case True
    from Cons.IH [OF rest True] show ?thesis .
  next
    case False
    with Cons.prems(2) c have same: "taskId1 = taskId" "ch1 = ch" by auto
    from toggle_establishes [OF step] same obtain t1 where
      "getTaskDoc ch taskId (tasks s1) = Some t1" "status_derived t1" by blast
    from toggle_all_keeps [OF rest this] show ?thesis .
  qed
qed

theorem toggleShoppingItem_status_derived_witness:
  "toggle_all (Some ''alice'') [(''t1'', ''i1'', True, None), (''t1'', ''i2'', True, None)] ex_tasks
     = Some \<lparr>tasks = [ex_shopping_done], task_error = None\<rparr> \<and>
   getTaskDoc None ''t1'' [ex_shopping_done] = Some ex_shopping_done \<and>
   status_derived ex_shopping_done \<and> status ex_shopping_done = Completed"
proof -
  have run: "toggle_all (Some ''alice'')
               [(''t1'', ''i1'', True, None), (''t1'', ''i2'', True, None)] ex_tasks
             = Some \<lparr>tasks = [ex_shopping_done], task_error = None\<rparr>"
    by (simp add: toggleShoppingItem_def attempt_task_def write_task_def at_ref_def
          truthy_def newStatus_def ex_tasks_def ex_shopping_def ex_shopping_done_def
          ex_milk_def ex_eggs_def)
  have doc: "getTaskDoc None ''t1'' [ex_shopping_done] = Some ex_shopping_done"
    by (simp add: getTaskDoc_def at_ref_def truthy_def ex_shopping_done_def ex_shopping_def)
  from toggleShoppingItem_status_derived [OF run, of "''t1''" "''i2''" True None] doc run
  show ?thesis by (simp add: ex_shopping_done_def)
qed

text \<open>
  Claim C6 as stated fails: toggleShoppingItem does not check that the item exists. With
  an item identifier that no item of the task has, the call succeeds and the store is as
  before.
\<close>

theorem toggleShoppingItem_unknown_item:
  "shoppingItems ex_shopping = Some [ex_milk, ex_eggs] \<and>
   ''i9'' \<notin> set (map item_id [ex_milk, ex_eggs]) \<and>
   toggleShoppingItem (Some ''alice'') ''t1'' ''i9'' True None ex_tasks = (Inr (), ex_tasks)"
  by (simp add: toggleShoppingItem_def attempt_task_def write_task_def at_ref_def
        truthy_def newStatus_def ex_tasks_def ex_shopping_def ex_milk_def ex_eggs_def)

text \<open>
  Claim C6, as amended. toggleShoppingItem fails, with "Task or shopping items not found",
  when the store has no task with the identifier or the task has no item list. When the
  task has an item list and the reference names a document, the call succeeds for every
  item identifier: the document receives the item list in which the completed flag of each
  item with this identifier is set to the given value and every other item is as before
  (the list as it was when no item has the identifier), and its status and completed flag
  are recomputed from this entire list.
\<close>

theorem toggleShoppingItem_outcomes:
  "(find (\<lambda>t. tid t = taskId) (tasks s) = None \<longrightarrow>
      toggleShoppingItem (Some u) taskId itemId b ch s
        = (Inl TaskNotFound, s\<lparr>task_error := Some TaskNotFound\<rparr>)) \<and>
   (\<forall>task. find (\<lambda>t. tid t = taskId) (tasks s) = Some task \<longrightarrow>
      (shoppingItems task = None \<longrightarrow>
         toggleShoppingItem (Some u) taskId itemId b ch s
           = (Inl TaskNotFound, s\<lparr>task_error := Some TaskNotFound\<rparr>)) \<and>
      (\<forall>items d. shoppingItems task = Some items \<and> getTaskDoc ch taskId (tasks s) = Some d \<longrightarrow>
         fst (toggleShoppingItem (Some u) taskId itemId b ch s) = Inr () \<and>
         (\<exists>items'.
            getTaskDoc ch taskId (tasks (snd (toggleShoppingItem (Some u) taskId itemId b ch s)))
              = Some (d\<lparr>shoppingItems := Some items', status := newStatus items',
                         completed := list_all item_completed items'\<rparr>) \<and>
            length items' = length items \<and>
            (\<forall>k < length items.
               items' ! k = (if item_id (items ! k) = itemId
                             then (items ! k)\<lparr>item_completed := b\<rparr> else items ! k)) \<and>
            (itemId \<notin> set (map item_id items) \<longrightarrow> items' = items))))"
proof (intro conjI allI impI; (elim conjE)?)
  assume "find (\<lambda>t. tid t = taskId) (tasks s) = None"
  then show "toggleShoppingItem (Some u) taskId itemId b ch s
      = (Inl TaskNotFound, s\<lparr>task_error := Some TaskNotFound\<rparr>)"
    by (simp add: toggleShoppingItem_def attempt_task_def)
next
  fix task
  assume "find (\<lambda>t. tid t = taskId) (tasks s) = Some task" "shoppingItems task = None"
  then show "toggleShoppingItem (Some u) taskId itemId b ch s
      = (Inl TaskNotFound, s\<lparr>task_error := Some TaskNotFound\<rparr>)"
    by (simp add: toggleShoppingItem_def attempt_task_def)
next
  fix task items d
  assume task: "find (\<lambda>t. tid t = taskId) (tasks s) = Some task"
    and items: "shoppingItems task = Some items"
    and d: "getTaskDoc ch taskId (tasks s) = Some d"
  let ?f = "\<lambda>d. d\<lparr>shoppingItems := Some (toggled itemId b items),
                    status := newStatus (toggled itemId b items),
                    completed := list_all item_completed (toggled itemId b items)\<rparr>"
  from d obtain ts' where up: "updateTaskDoc ch taskId ?f (tasks s) = Some ts'"
    using updateTaskDoc_None [of ch taskId ?f "tasks s"]
    by (cases "updateTaskDoc ch taskId ?f (tasks s)") auto
  with task items have res: "toggleShoppingItem (Some u) taskId itemId b ch s
      = (Inr (), s\<lparr>tasks := ts', task_error := None\<rparr>)"
    by (simp add: toggleShoppingItem_def attempt_task_def write_task_def toggled_def)
  then show "fst (toggleShoppingItem (Some u) taskId itemId b ch s) = Inr ()" by simp
  from getTaskDoc_written [OF up] d
  have doc: "getTaskDoc ch taskId ts' = Some (?f d)" by (auto simp: at_ref_written)
  have same: "itemId \<notin> set (map item_id items) \<longrightarrow> toggled itemId b items = items"
    unfolding toggled_def by (intro impI map_idI) auto
  show "\<exists>items'.
          getTaskDoc ch taskId (tasks (snd (toggleShoppingItem (Some u) taskId itemId b ch s)))
            = Some (d\<lparr>shoppingItems := Some items', status := newStatus items',
                       completed := list_all item_completed items'\<rparr>) \<and>
          length items' = length items \<and>
          (\<forall>k < length items.
             items' ! k = (if item_id (items ! k) = itemId
                           then (items ! k)\<lparr>item_completed := b\<rparr> else items ! k)) \<and>
          (itemId \<notin> set (map item_id items) \<longrightarrow> items' = items)"
  proof (intro exI [of _ "toggled itemId b items"] conjI)
    show "getTaskDoc ch taskId (tasks (snd (toggleShoppingItem (Some u) taskId itemId b ch s)))
        = Some (?f d)"
      using res doc by simp
    show "length (toggled itemId b items) = length items" by (simp add: toggled_def)
    show "\<forall>k < length items.
        toggled itemId b items ! k = (if item_id (items ! k) = itemId
                                      then (items ! k)\<lparr>item_completed := b\<rparr> else items ! k)"
      by (simp add: toggled_def)
    show "itemId \<notin> set (map item_id items) \<longrightarrow> toggled itemId b items = items" by (rule same)
  qed
qed

theorem toggleShoppingItem_outcomes_witness:
  "find (\<lambda>t. tid t = ''t1'') (tasks ex_tasks) = Some ex_shopping \<and>
   getTaskDoc None ''t1'' (tasks ex_tasks) = Some ex_shopping \<and>
   fst (toggleShoppingItem (Some ''alice'') ''t1'' ''i1'' True None ex_tasks) = Inr () \<and>
   getTaskDoc None ''t1''
       (tasks (snd (toggleShoppingItem (Some ''alice'') ''t1'' ''i1'' True None ex_tasks)))
     = Some (ex_shopping\<lparr>shoppingItems := Some [ex_milk\<lparr>item_completed := True\<rparr>, ex_eggs],
                          status := InProgress, completed := False\<rparr>) \<and>
   toggleShoppingItem (Some ''alice'') ''t7'' ''i1'' True None ex_tasks
     = (Inl TaskNotFound, ex_tasks\<lparr>task_error := Some TaskNotFound\<rparr>)"
  using toggleShoppingItem_outcomes [of "''t1''" ex_tasks "''alice''" "''i1''" True None]
    toggleShoppingItem_outcomes [of "''t7''" ex_tasks "''alice''" "''i1''" True None]
  by (simp add: toggleShoppingItem_def attempt_task_def write_task_def getTaskDoc_def
        at_ref_def truthy_def newStatus_def ex_tasks_def ex_shopping_def ex_milk_def
        ex_eggs_def)

subsection \<open>toggleTaskCompletion\<close>

text \<open>
  Claim C4 as stated fails: a regular task in progress is completed and then uncompleted,
  and its status is not_started, not in_progress. Completing the task overwrote the
  status, and nothing else records that the task had been started.
\<close>

theorem toggleTaskCompletion_forgets_progress:
  "status (ex_regular\<lparr>status := InProgress\<rparr>) = InProgress \<and>
   toggleTaskCompletion (Some ''alice'') ''t2'' True None
       \<lparr>tasks = [ex_regular\<lparr>status := InProgress\<rparr>], task_error = None\<rparr>
     = (Inr (), \<lparr>tasks = [ex_regular\<lparr>completed := True, status := Completed\<rparr>],
                 task_error = None\<rparr>) \<and>
   toggleTaskCompletion (Some ''alice'') ''t2'' False None
       \<lparr>tasks = [ex_regular\<lparr>completed := True, status := Completed\<rparr>], task_error = None\<rparr>
     = (Inr (), \<lparr>tasks = [ex_regular\<lparr>completed := False, status := NotStarted\<rparr>],
                 task_error = None\<rparr>)"
  by (simp add: toggleTaskCompletion_def attempt_task_def write_task_def at_ref_def
        truthy_def ex_regular_def)

text \<open>
  Claim C4, as amended. For a task of the store that the reference names,
  toggleTaskCompletion(id, completed) succeeds and sets the completed flag to the given
  value; completed = true yields the status completed; completed = false on a regular task
  yields in_progress exactly when the status stored at the time of the call is in_progress,
  and not_started otherwise (so a task whose status is completed always reverts to
  not_started); for a shopping-kind task, every item's completed flag is set to the given
  value (and uncompleting a shopping task with an item list yields not_started).
\<close>

theorem toggleTaskCompletion_outcomes:
  assumes "find (\<lambda>t. tid t = i) (tasks s) = Some t"
    and "getTaskDoc ch i (tasks s) = Some t"
  shows "fst (toggleTaskCompletion (Some u) i b ch s) = Inr () \<and>
         (\<exists>t'. getTaskDoc ch i (tasks (snd (toggleTaskCompletion (Some u) i b ch s))) = Some t' \<and>
            completed t' = b \<and>
            (b \<longrightarrow> status t' = Completed) \<and>
            (\<not> b \<and> task_type t \<noteq> Some Shopping \<longrightarrow>
               status t' = (if status t = InProgress then InProgress else NotStarted)) \<and>
            (task_type t = Some Shopping \<longrightarrow>
               shoppingItems t'
                 = map_option (map (\<lambda>item. item\<lparr>item_completed := b\<rparr>)) (shoppingItems t) \<and>
               (\<forall>items'. shoppingItems t' = Some items' \<longrightarrow>
                  (\<forall>item \<in> set items'. item_completed item = b) \<and>
                  (\<not> b \<longrightarrow> status t' = NotStarted))))"
proof (cases "task_type t = Some Shopping \<and> shoppingItems t \<noteq> None")
  case True
  then obtain items where items: "shoppingItems t = Some items" by auto
  let ?f = "\<lambda>d. d\<lparr>completed := b, status := (if b then Completed else NotStarted),
                    shoppingItems := Some (map (\<lambda>item. item\<lparr>item_completed := b\<rparr>) items)\<rparr>"
  from assms(2) obtain ts' where up: "updateTaskDoc ch i ?f (tasks s) = Some ts'"
    using updateTaskDoc_None [of ch i ?f "tasks s"]
    by (cases "updateTaskDoc ch i ?f (tasks s)") auto
  with assms(1) True items
  have res: "toggleTaskCompletion (Some u) i b ch s = (Inr (), s\<lparr>tasks := ts', task_error := None\<rparr>)"
    by (simp add: toggleTaskCompletion_def attempt_task_def write_task_def)
  from getTaskDoc_written [OF up] assms(2)
  have "getTaskDoc ch i ts' = Some (?f t)" by (auto simp: at_ref_def)
  with res True items show ?thesis by auto
next
  case False
  let ?f = "\<lambda>d. d\<lparr>completed := b,
                    status := (if b then Completed
                               else if status t = InProgress then InProgress else NotStarted)\<rparr>"
  from assms(2) obtain ts' where up: "updateTaskDoc ch i ?f (tasks s) = Some ts'"
    using updateTaskDoc_None [of ch i ?f "tasks s"]
    by (cases "updateTaskDoc ch i ?f (tasks s)") auto
  with assms(1) False
  have res: "toggleTaskCompletion (Some u) i b ch s = (Inr (), s\<lparr>tasks := ts', task_error := None\<rparr>)"
    by (auto simp: toggleTaskCompletion_def attempt_task_def write_task_def)
  from getTaskDoc_written [OF up] assms(2)
  have "getTaskDoc ch i ts' = Some (?f t)" by (auto simp: at_ref_def)
  with res False show ?thesis by auto
qed

theorem toggleTaskCompletion_outcomes_witness:
  "find (\<lambda>t. tid t = ''t1'') (tasks ex_tasks) = Some ex_shopping \<and>
   getTaskDoc None ''t1'' (tasks ex_tasks) = Some ex_shopping \<and>
   fst (toggleTaskCompletion (Some ''alice'') ''t1'' True None ex_tasks) = Inr () \<and>
   getTaskDoc None ''t1'' (tasks (snd (toggleTaskCompletion (Some ''alice'') ''t1'' True None ex_tasks)))
     = Some ex_shopping_done \<and>
   getTaskDoc None ''t2''
       (tasks (snd (toggleTaskCompletion (Some ''alice'') ''t2'' False None
                      \<lparr>tasks = [ex_regular\<lparr>status := InProgress\<rparr>], task_error = None\<rparr>)))
     = Some (ex_regular\<lparr>status := InProgress\<rparr>)"
proof -
  have a: "find (\<lambda>t. tid t = ''t1'') (tasks ex_tasks) = Some ex_shopping"
    by (simp add: ex_tasks_def ex_shopping_def)
  have b: "getTaskDoc None ''t1'' (tasks ex_tasks) = Some ex_shopping"
    by (simp add: getTaskDoc_def at_ref_def truthy_def ex_tasks_def ex_shopping_def)
  have c: "getTaskDoc None ''t2''
       (tasks (snd (toggleTaskCompletion (Some ''alice'') ''t2'' False None
                      \<lparr>tasks = [ex_regular\<lparr>status := InProgress\<rparr>], task_error = None\<rparr>)))
     = Some (ex_regular\<lparr>status := InProgress\<rparr>)"
    by (simp add: toggleTaskCompletion_def attempt_task_def write_task_def getTaskDoc_def
          at_ref_def truthy_def ex_regular_def)
  have d: "getTaskDoc None ''t1''
       (tasks (snd (toggleTaskCompletion (Some ''alice'') ''t1'' True None ex_tasks)))
     = Some ex_shopping_done"
    by (simp add: toggleTaskCompletion_def attempt_task_def write_task_def getTaskDoc_def
          at_ref_def truthy_def ex_tasks_def ex_shopping_def ex_shopping_done_def
          ex_milk_def ex_eggs_def)
  from toggleTaskCompletion_outcomes [OF a b, of "''alice''" True] a b c d
  show ?thesis by simp
qed

subsection \<open>updateTask\<close>

text \<open>
  Claim C10 as stated fails: updateTask writes the status its argument has. With the task
  object that TaskList's status menu passes for a task with a due date, the stored status
  changes from not_started to in_progress.
\<close>

theorem updateTask_status_written:
  "status ex_regular = NotStarted \<and> dueDate ex_regular = Some 100 \<and>
   updateTask (Some ''alice'') (\<lambda>n. ''fresh'') ''t2'' (task_object (ex_regular\<lparr>status := InProgress\<rparr>))
       \<lparr>tasks = [ex_regular], task_error = None\<rparr>
     = (Inr (), \<lparr>tasks = [ex_regular\<lparr>status := InProgress\<rparr>], task_error = None\<rparr>)"
  by (simp add: updateTask_def attempt_task_def write_task_def at_ref_def truthy_def
        updatedData_def task_object_def has_undefined_def present_def value_of_def
        keep_def keep_opt_def ex_regular_def)

text \<open>
  Claim C10, as amended. An updateTask call whose updates have no value for completed and
  none for status leaves these two fields of every task as they were, whether it succeeds
  or fails. Updates in which a property is undefined are rejected and nothing is written.
  Otherwise the document the reference names receives the status and the completed flag
  that the updates have, keeps its own where they have none, and receives the item list of
  the updates; the status is never recomputed from the items. The whole task object that
  the status menu passes has an undefined property exactly when the task has no due date:
  for such a task the call is rejected, for a task with a due date the status of the
  object is written. Updates that mark every item of a not-started shopping task completed
  leave the task with status not_started and completed = false, which no longer follows
  from its items.
\<close>

theorem updateTask_keeps_status:
  "(value_of (u_status updates) = None \<and> value_of (u_completed updates) = None \<longrightarrow>
      map tid (tasks (snd (updateTask cur uuids i updates s))) = map tid (tasks s) \<and>
      map status (tasks (snd (updateTask cur uuids i updates s))) = map status (tasks s) \<and>
      map completed (tasks (snd (updateTask cur uuids i updates s))) = map completed (tasks s)) \<and>
   (has_undefined updates \<longrightarrow>
      updateTask (Some u) uuids i updates s
        = (Inl InvalidData, s\<lparr>task_error := Some InvalidData\<rparr>)) \<and>
   (\<forall>d. \<not> has_undefined updates \<and>
        getTaskDoc (value_of (u_channelId updates)) i (tasks s) = Some d \<longrightarrow>
      fst (updateTask (Some u) uuids i updates s) = Inr () \<and>
      (\<exists>d'. getTaskDoc (value_of (u_channelId updates)) i
               (tasks (snd (updateTask (Some u) uuids i updates s))) = Some d' \<and>
            status d' = (case value_of (u_status updates) of None \<Rightarrow> status d | Some st \<Rightarrow> st) \<and>
            completed d'
              = (case value_of (u_completed updates) of None \<Rightarrow> completed d | Some c \<Rightarrow> c) \<and>
            shoppingItems d'
              = (case value_of (u_shoppingItems updates) of
                   None \<Rightarrow> shoppingItems d
                 | Some items \<Rightarrow> Some (assign_ids uuids 0 items)))) \<and>
   (has_undefined (task_object t) \<longleftrightarrow> dueDate t = None) \<and>
   (value_of (u_status ex_items_bought) = None \<and>
    value_of (u_completed ex_items_bought) = None \<and>
    status_derived ex_shopping \<and>
    fst (updateTask (Some ''alice'') uuids ''t1'' ex_items_bought ex_tasks) = Inr () \<and>
    (\<exists>t. getTaskDoc None ''t1''
            (tasks (snd (updateTask (Some ''alice'') uuids ''t1'' ex_items_bought ex_tasks)))
            = Some t \<and>
          shoppingItems t = shoppingItems ex_shopping_done \<and>
          status t = NotStarted \<and> \<not> completed t \<and> \<not> status_derived t))"
proof (intro conjI impI allI; (elim conjE)?)
  assume n: "value_of (u_status updates) = None" "value_of (u_completed updates) = None"
  let ?s' = "snd (updateTask cur uuids i updates s)"
  from n have st: "\<And>x. status (updatedData uuids updates x) = status x"
    and co: "\<And>x. completed (updatedData uuids updates x) = completed x"
    and id: "\<And>x. tid (updatedData uuids updates x) = tid x"
    by (simp_all add: updatedData_def keep_def)
  from updateTask_tasks [of cur uuids i updates s] id
  show "map tid (tasks ?s') = map tid (tasks s)"
    by (auto dest: map_updateTaskDoc [where g = tid])
  from updateTask_tasks [of cur uuids i updates s] st
  show "map status (tasks ?s') = map status (tasks s)"
    by (auto dest: map_updateTaskDoc [where g = status])
  from updateTask_tasks [of cur uuids i updates s] co
  show "map completed (tasks ?s') = map completed (tasks s)"
    by (auto dest: map_updateTaskDoc [where g = completed])
next
  assume "has_undefined updates"
  then show "updateTask (Some u) uuids i updates s
      = (Inl InvalidData, s\<lparr>task_error := Some InvalidData\<rparr>)"
    by (simp add: updateTask_def attempt_task_def)
next
  fix d
  assume ok: "\<not> has_undefined updates"
    and d: "getTaskDoc (value_of (u_channelId updates)) i (tasks s) = Some d"
  let ?ch = "value_of (u_channelId updates)"
  from d obtain ts' where
    up: "updateTaskDoc ?ch i (updatedData uuids updates) (tasks s) = Some ts'"
    using updateTaskDoc_None [of ?ch i "updatedData uuids updates" "tasks s"]
    by (cases "updateTaskDoc ?ch i (updatedData uuids updates) (tasks s)") auto
  with ok have res: "updateTask (Some u) uuids i updates s
      = (Inr (), s\<lparr>tasks := ts', task_error := None\<rparr>)"
    by (simp add: updateTask_def attempt_task_def write_task_def)
  then show "fst (updateTask (Some u) uuids i updates s) = Inr ()" by simp
  from getTaskDoc_written [OF up at_ref_updatedData] d
  have "getTaskDoc ?ch i ts' = Some (updatedData uuids updates d)" by auto
  with res
  show "\<exists>d'. getTaskDoc ?ch i (tasks (snd (updateTask (Some u) uuids i updates s))) = Some d' \<and>
            status d' = (case value_of (u_status updates) of None \<Rightarrow> status d | Some st \<Rightarrow> st) \<and>
            completed d'
              = (case value_of (u_completed updates) of None \<Rightarrow> completed d | Some c \<Rightarrow> c) \<and>
            shoppingItems d'
              = (case value_of (u_shoppingItems updates) of
                   None \<Rightarrow> shoppingItems d
                 | Some items \<Rightarrow> Some (assign_ids uuids 0 items))"
    by (simp add: updatedData_def keep_def)
next
  show "has_undefined (task_object t) = (dueDate t = None)"
    by (rule has_undefined_task_object)
next
  show "value_of (u_status ex_items_bought) = None"
    "value_of (u_completed ex_items_bought) = None"
    by (simp_all add: ex_items_bought_def value_of_def)
  show "status_derived ex_shopping"
    by (simp add: status_derived_def ex_shopping_def ex_milk_def ex_eggs_def)
  have run: "updateTask (Some ''alice'') uuids ''t1'' ex_items_bought ex_tasks
      = (Inr (), \<lparr>tasks = [ex_shopping\<lparr>shoppingItems := shoppingItems ex_shopping_done\<rparr>],
                  task_error = None\<rparr>)"
    by (simp add: updateTask_def attempt_task_def write_task_def at_ref_def truthy_def
          updatedData_def has_undefined_def value_of_def keep_def keep_opt_def
          ex_items_bought_def ex_tasks_def ex_shopping_def ex_shopping_done_def
          ex_milk_def ex_eggs_def)
  then show "fst (updateTask (Some ''alice'') uuids ''t1'' ex_items_bought ex_tasks) = Inr ()"
    by simp
  show "\<exists>t. getTaskDoc None ''t1''
            (tasks (snd (updateTask (Some ''alice'') uuids ''t1'' ex_items_bought ex_tasks)))
            = Some t \<and>
          shoppingItems t = shoppingItems ex_shopping_done \<and>
          status t = NotStarted \<and> \<not> completed t \<and> \<not> status_derived t"
    unfolding run
    by (intro exI [of _ "ex_shopping\<lparr>shoppingItems := shoppingItems ex_shopping_done\<rparr>"])
       (simp add: getTaskDoc_def at_ref_def truthy_def status_derived_def ex_shopping_def
          ex_shopping_done_def ex_milk_def ex_eggs_def)
qed

theorem updateTask_keeps_status_witness:
  "value_of (u_status ex_items_bought) = None \<and>
   value_of (u_completed ex_items_bought) = None \<and> \<not> has_undefined ex_items_bought \<and>
   fst (updateTask (Some ''alice'') (\<lambda>n. ''fresh'') ''t1'' ex_items_bought ex_tasks) = Inr () \<and>
   map shoppingItems
       (tasks (snd (updateTask (Some ''alice'') (\<lambda>n. ''fresh'') ''t1'' ex_items_bought ex_tasks)))
     = [shoppingItems ex_shopping_done] \<and>
   map status
       (tasks (snd (updateTask (Some ''alice'') (\<lambda>n. ''fresh'') ''t1'' ex_items_bought ex_tasks)))
     = [NotStarted] \<and>
   map completed
       (tasks (snd (updateTask (Some ''alice'') (\<lambda>n. ''fresh'') ''t1'' ex_items_bought ex_tasks)))
     = [False] \<and>
   dueDate ex_shopping = None \<and>
   has_undefined (task_object (ex_shopping\<lparr>status := InProgress\<rparr>)) \<and>
   updateTask (Some ''alice'') (\<lambda>n. ''fresh'') ''t1''
       (task_object (ex_shopping\<lparr>status := InProgress\<rparr>)) ex_tasks
     = (Inl InvalidData, ex_tasks\<lparr>task_error := Some InvalidData\<rparr>)"
proof -
  have run: "updateTask (Some ''alice'') (\<lambda>n. ''fresh'') ''t1'' ex_items_bought ex_tasks
      = (Inr (), \<lparr>tasks = [ex_shopping\<lparr>shoppingItems := shoppingItems ex_shopping_done\<rparr>],
                  task_error = None\<rparr>)"
    by (simp add: updateTask_def attempt_task_def write_task_def at_ref_def truthy_def
          updatedData_def has_undefined_def value_of_def keep_def keep_opt_def
          ex_items_bought_def ex_tasks_def ex_shopping_def ex_shopping_done_def
          ex_milk_def ex_eggs_def)
  have nodue: "dueDate (ex_shopping\<lparr>status := InProgress\<rparr>) = None"
    by (simp add: ex_shopping_def)
  have ok: "\<not> has_undefined ex_items_bought"
    by (simp add: has_undefined_def ex_items_bought_def value_of_def)
  from nodue ok
    updateTask_keeps_status [of ex_items_bought "Some ''alice''" "\<lambda>n. ''fresh''" "''t1''" ex_tasks]
    updateTask_keeps_status [where updates = "task_object (ex_shopping\<lparr>status := InProgress\<rparr>)"
      and t = "ex_shopping\<lparr>status := InProgress\<rparr>" and u = "''alice''"
      and uuids = "\<lambda>n. ''fresh''" and i = "''t1''" and s = ex_tasks]
  show ?thesis unfolding run
    by (simp add: ex_items_bought_def ex_tasks_def ex_shopping_def value_of_def)
qed

section \<open>Channel chat: the message log\<close>

text \<open>
  The query keeps the first 100 messages of the channel in ascending order of creation
  time: every message it drops is at least as new as every message it keeps.
\<close>

lemma channelMessagesQuery_oldest:
  "sorted (map m_createdAt (channelMessagesQuery ch db)) \<and>
   length (channelMessagesQuery ch db) = min 100 (length (filter (\<lambda>m. m_channelId m = ch) db)) \<and>
   (\<forall>m \<in> set (channelMessagesQuery ch db).
      \<forall>m' \<in> set (drop 100 (sort_key m_createdAt (filter (\<lambda>m. m_channelId m = ch) db))).
        m_createdAt m \<le> m_createdAt m')"
proof -
  define xs where "xs = sort_key m_createdAt (filter (\<lambda>m. m_channelId m = ch) db)"
  have q: "channelMessagesQuery ch db = take 100 xs"
    by (simp only: channelMessagesQuery_def xs_def)
  have "sorted (map m_createdAt xs)" by (simp only: xs_def sorted_sort_key)
  moreover have "map m_createdAt xs = map m_createdAt (take 100 xs) @ map m_createdAt (drop 100 xs)"
    by (metis append_take_drop_id map_append)
  ultimately have "sorted (map m_createdAt (take 100 xs) @ map m_createdAt (drop 100 xs))"
    by (simp only:)
  then have a: "sorted (map m_createdAt (take 100 xs))"
    and b: "\<forall>x \<in> set (map m_createdAt (take 100 xs)).
           \<forall>y \<in> set (map m_createdAt (drop 100 xs)). x \<le> y"
    unfolding sorted_append by blast+
  have len: "length (take 100 xs) = min 100 (length (filter (\<lambda>m. m_channelId m = ch) db))"
    by (simp only: length_take xs_def length_sort min.commute)
  have c: "\<forall>m \<in> set (take 100 xs). \<forall>m' \<in> set (drop 100 xs). m_createdAt m \<le> m_createdAt m'"
  proof (intro ballI)
    fix m m'
    assume "m \<in> set (take 100 xs)" "m' \<in> set (drop 100 xs)"
    then have "m_createdAt m \<in> set (map m_createdAt (take 100 xs))"
      and "m_createdAt m' \<in> set (map m_createdAt (drop 100 xs))"
      by (simp_all only: set_map imageI)
    with b show "m_createdAt m \<le> m_createdAt m'" by blast
  qed
  from a len c show ?thesis by (simp only: q xs_def [symmetric] simp_thms)
qed

lemma channelMessagesQuery_sorted_channel:
  "sorted (map m_createdAt db) \<Longrightarrow> \<forall>m \<in> set db. m_channelId m = ch \<Longrightarrow>
     channelMessagesQuery ch db = take 100 db"
  by (simp add: channelMessagesQuery_def sort_key_id_if_sorted)

text \<open>
  Claim C7. The log getChannelMessages installs is ordered by creation time ascending,
  replaces the in-memory log, and has at most 100 messages; but when the channel has more
  than 100 messages it retains the 100 oldest, not the 100 most recent. For a channel with
  101 messages created at times 1 to 101, the log holds the messages of times 1 to 100:
  the newest message is missing and the oldest is kept.
\<close>

theorem getChannelMessages_keeps_oldest:
  "length (filter (\<lambda>m. m_channelId m = ''c1'') (messages_db ex_chat)) = 101 \<and>
   messages (snd (getChannelMessages (Some ''alice'') ''c1'' ex_chat)) = map ex_message [1..<101] \<and>
   ex_message 101 \<in> set (messages_db ex_chat) \<and>
   ex_message 101 \<notin> set (messages (snd (getChannelMessages (Some ''alice'') ''c1'' ex_chat))) \<and>
   ex_message 1 \<in> set (messages (snd (getChannelMessages (Some ''alice'') ''c1'' ex_chat)))"
proof -
  have created: "map m_createdAt (map ex_message [1..<102]) = [1..<102]"
    by (simp add: map_idI ex_message_def)
  have "sorted (map m_createdAt (map ex_message [1..<102]))"
    unfolding created by simp
  moreover have "\<forall>m \<in> set (map ex_message [1..<102]). m_channelId m = ''c1''"
    by (simp add: ex_message_def)
  ultimately have q: "channelMessagesQuery ''c1'' (map ex_message [1..<102])
      = take 100 (map ex_message [1..<102])"
    by (rule channelMessagesQuery_sorted_channel)
  have t: "take 100 (map ex_message [1..<102]) = map ex_message [1..<101]"
    by (simp add: take_map)
  have inj: "\<And>a b. ex_message a = ex_message b \<Longrightarrow> a = b"
    by (simp add: ex_message_def)
  have res: "messages (snd (getChannelMessages (Some ''alice'') ''c1'' ex_chat))
      = map ex_message [1..<101]"
    using q t by (simp add: getChannelMessages_def ex_chat_def)
  have all: "filter (\<lambda>m. m_channelId m = ''c1'') (messages_db ex_chat) = messages_db ex_chat"
    by (simp add: ex_chat_def ex_message_def)
  show ?thesis unfolding res all
    by (auto simp: ex_chat_def dest: inj)
qed

section \<open>Direct messages: who may message whom\<close>

lemma canMessageUser_iff:
  "canMessageUser (Some a) b joined
     = (\<exists>c \<in> set joined. b \<in> set (members c) \<and> a \<in> set (members c))"
  by (auto simp: canMessageUser_def filter_empty_conv)

text \<open>
  Claim C9. canMessageUser, evaluated for a with target b on the channels a has joined,
  is true iff it is true for b with target a on the channels b has joined, and both equal
  the existence of a channel whose members contain a and b. When canMessageUser is false
  for the caller and the target, sendMessage and getMessagesWithUser fail (with "You can
  only message/view messages with users who are in the same channels as you") and change
  nothing but the recorded error.
\<close>

theorem canMessageUser_symmetric:
  "(canMessageUser (Some a) b (joinedChannels a cs)
      \<longleftrightarrow> canMessageUser (Some b) a (joinedChannels b cs)) \<and>
   (canMessageUser (Some a) b (joinedChannels a cs)
      \<longleftrightarrow> (\<exists>c \<in> set cs. a \<in> set (members c) \<and> b \<in> set (members c))) \<and>
   (\<not> canMessageUser (Some a) b joined \<longrightarrow>
      sendMessage (Some a) displayName joined b body now newId s
        = (Inl NotPermitted, s\<lparr>dm_error := Some NotPermitted\<rparr>) \<and>
      getMessagesWithUser (Some a) joined b s
        = (Inl NotPermitted, s\<lparr>dm_error := Some NotPermitted\<rparr>))"
proof (intro conjI impI)
  show "canMessageUser (Some a) b (joinedChannels a cs)
      = canMessageUser (Some b) a (joinedChannels b cs)"
    by (auto simp: canMessageUser_iff joinedChannels_def)
  show "canMessageUser (Some a) b (joinedChannels a cs)
      = (\<exists>c \<in> set cs. a \<in> set (members c) \<and> b \<in> set (members c))"
    by (auto simp: canMessageUser_iff joinedChannels_def)
next
  assume "\<not> canMessageUser (Some a) b joined"
  then show "sendMessage (Some a) displayName joined b body now newId s
      = (Inl NotPermitted, s\<lparr>dm_error := Some NotPermitted\<rparr>)"
    and "getMessagesWithUser (Some a) joined b s
      = (Inl NotPermitted, s\<lparr>dm_error := Some NotPermitted\<rparr>)"
    by (simp_all add: sendMessage_def getMessagesWithUser_def)
qed

theorem canMessageUser_symmetric_witness:
  "canMessageUser (Some ''alice'') ''bob'' (joinedChannels ''alice'' [ex_channel, ex_public_channel]) \<and>
   canMessageUser (Some ''bob'') ''alice'' (joinedChannels ''bob'' [ex_channel, ex_public_channel]) \<and>
   \<not> canMessageUser (Some ''alice'') ''carol''
       (joinedChannels ''alice'' [ex_channel, ex_public_channel]) \<and>
   \<not> canMessageUser (Some ''carol'') ''alice''
       (joinedChannels ''carol'' [ex_channel, ex_public_channel]) \<and>
   sendMessage (Some ''alice'') (Some ''Alice'')
       (joinedChannels ''alice'' [ex_channel, ex_public_channel]) ''carol'' ''hi'' 7 ''m1'' ex_dm_store
     = (Inl NotPermitted, ex_dm_store\<lparr>dm_error := Some NotPermitted\<rparr>) \<and>
   getMessagesWithUser (Some ''alice'')
       (joinedChannels ''alice'' [ex_channel, ex_public_channel]) ''carol'' ex_dm_store
     = (Inl NotPermitted, ex_dm_store\<lparr>dm_error := Some NotPermitted\<rparr>) \<and>
   fst (sendMessage (Some ''alice'') (Some ''Alice'')
       (joinedChannels ''alice'' [ex_channel, ex_public_channel]) ''bob'' ''hi'' 7 ''m1'' ex_dm_store)
     = Inr ()"
proof -
  have ok: "fst (sendMessage (Some ''alice'') (Some ''Alice'')
       (joinedChannels ''alice'' [ex_channel, ex_public_channel]) ''bob'' ''hi'' 7 ''m1'' ex_dm_store)
     = Inr ()"
    by (simp add: sendMessage_def canMessageUser_def joinedChannels_def ex_channel_def
          ex_public_channel_def)
  from canMessageUser_symmetric [of "''alice''" "''bob''" "[ex_channel, ex_public_channel]"]
    canMessageUser_symmetric [of "''alice''" "''carol''" "[ex_channel, ex_public_channel]"
      "joinedChannels ''alice'' [ex_channel, ex_public_channel]" "Some ''Alice''" "''hi''" 7
      "''m1''" ex_dm_store]
    ok
  show ?thesis
    by (simp add: canMessageUser_def joinedChannels_def ex_channel_def ex_public_channel_def)
qed

end
